theory Spec2Isabelle
  imports Complex_Main "HOL-Library.Multiset" "HOL-Library.Sublist"
begin

section \<open>The three top-N scanners of 500Foods/Scripts\<close>

text \<open>
  The repository holds three Python scripts that walk a directory tree and keep the
  largest entries: \<^verbatim>\<open>files/topcounts.py\<close> (files per directory),
  \<^verbatim>\<open>files/topdirs.py\<close> (megabytes of the files directly in a directory) and
  \<^verbatim>\<open>files/topfiles.py\<close> (megabytes of single files, at least 1 MB).
  Each function of the scripts is embedded below under its own name; the loops are
  recursive functions over the sequence that \<^verbatim>\<open>os.walk\<close> yields, an exception is a
  value \<open>Inl e\<close>, and the printed report is a list of lines.
\<close>

subsection \<open>The operating system: paths, the walk, the size of a file\<close>

type_synonym path = string

text \<open>
  One step of \<^verbatim>\<open>os.walk\<close>: the triple \<^verbatim>\<open>(root, dirs, filenames)\<close>.
\<close>

type_synonym walk_entry = "path \<times> string list \<times> string list"

text \<open>
  A directory, as the walk sees it: its subdirectories by name, in listing order, and
  the names of the files directly inside it.
\<close>

datatype dir = Dir (subdirs: "(string \<times> dir) list") (filenames: "string list")

text \<open>
  \<^verbatim>\<open>os.path.getsize\<close> raises \<^verbatim>\<open>FileNotFoundError\<close> when the file is gone; every
  other \<^verbatim>\<open>OSError\<close> (permission denied, I/O error) is \<open>OtherOSError\<close>.
\<close>

datatype os_error = FileNotFoundError | OtherOSError

text \<open>
  The file system a scan runs against. \<open>dir_at\<close> gives the directory tree that a start
  path names, if there is one. \<open>getsize\<close> is \<^verbatim>\<open>os.path.getsize\<close>, the size in bytes:
  it is asked per path and separately from the listing, so a file that was listed can
  have vanished when its size is asked.
\<close>

record filesystem =
  dir_at :: "path \<Rightarrow> dir option"
  getsize :: "path \<Rightarrow> os_error + nat"

text \<open>
  \<^verbatim>\<open>os.path.join(a, b)\<close> of \<^verbatim>\<open>posixpath\<close> for two components: an absolute \<open>b\<close>
  replaces \<open>a\<close>; otherwise \<open>b\<close> is appended, after a separator unless \<open>a\<close> is empty
  or already ends in one.
\<close>

definition os_path_join :: "path \<Rightarrow> path \<Rightarrow> path" where
  "os_path_join a b =
     (if b \<noteq> [] \<and> hd b = CHR ''/'' then b
      else if a = [] \<or> last a = CHR ''/'' then a @ b
      else a @ ''/'' @ b)"

text \<open>
  \<^verbatim>\<open>os.walk(top)\<close> with its default arguments: top-down, so a directory is yielded
  before its subdirectories, which follow in listing order, each under the joined path.
\<close>

fun walk_dir :: "path \<Rightarrow> dir \<Rightarrow> walk_entry list" where
  "walk_dir top_path (Dir subs files) =
     (top_path, map fst subs, files) #
     concat (map (\<lambda>(name, d). walk_dir (os_path_join top_path name) d) subs)"

text \<open>
  With the default \<^verbatim>\<open>onerror=None\<close>, \<^verbatim>\<open>os.walk\<close> ignores the error of listing a
  directory: a start directory that does not exist yields nothing.
\<close>

definition os_walk :: "filesystem \<Rightarrow> path \<Rightarrow> walk_entry list" where
  "os_walk fs start_dir =
     (case dir_at fs start_dir of None \<Rightarrow> [] | Some d \<Rightarrow> walk_dir start_dir d)"

subsection \<open>The list operations of Python the scripts use\<close>

text \<open>
  \<^verbatim>\<open>xs.sort(key=key, reverse=True)\<close>. Python's sort is stable, and with
  \<^verbatim>\<open>reverse=True\<close> it stays stable: the list is reversed, sorted stably in
  ascending order of the key, and reversed again. \<open>sort_key\<close> is the stable
  insertion sort of the library.
\<close>

definition py_sort_reverse :: "('a \<Rightarrow> 'k::linorder) \<Rightarrow> 'a list \<Rightarrow> 'a list" where
  "py_sort_reverse key xs = rev (sort_key key (rev xs))"

text \<open>
  The slice \<^verbatim>\<open>xs[:n]\<close>: the first \<open>n\<close> elements, and for a negative \<open>n\<close> all but
  the last \<open>-n\<close> elements (none when the list is shorter).
\<close>

definition py_slice_to :: "'a list \<Rightarrow> int \<Rightarrow> 'a list" where
  "py_slice_to xs n =
     (if 0 \<le> n then take (nat n) xs else take (length xs - nat (- n)) xs)"

subsection \<open>\<^verbatim>\<open>files/topcounts.py\<close>\<close>

text \<open>
  The loop of \<^verbatim>\<open>get_dir_counts\<close> over the entries of the walk; \<open>counts\<close> is the
  list at the start of the iteration.
\<close>

fun get_dir_counts_loop :: "walk_entry list \<Rightarrow> int \<Rightarrow> (int \<times> path) list \<Rightarrow> (int \<times> path) list" where
  "get_dir_counts_loop [] num_dirs counts = counts"
| "get_dir_counts_loop ((root_dir, dirs, names) # rest) num_dirs counts =
     (let count = int (length names);
          counts1 = counts @ [(count, root_dir)];
          counts2 = py_sort_reverse fst counts1;
          counts3 = py_slice_to counts2 num_dirs
      in get_dir_counts_loop rest num_dirs counts3)"

definition get_dir_counts :: "filesystem \<Rightarrow> path \<Rightarrow> int \<Rightarrow> (int \<times> path) list" where
  "get_dir_counts fs start_dir num_dirs =
     get_dir_counts_loop (os_walk fs start_dir) num_dirs []"

subsection \<open>\<^verbatim>\<open>files/topdirs.py\<close>\<close>

text \<open>
  Sizes in megabytes are Python floats, \<^verbatim>\<open>size_bytes / (1024 * 1024)\<close>. A division by
  \<open>2\<^sup>2\<^sup>0\<close> and the sums of such quotients are exact in binary64 as long as the byte
  counts added stay below \<open>2\<^sup>5\<^sup>3\<close>, so the metric is the rational number itself.
\<close>

type_synonym megabytes = rat

text \<open>
  The inner loop of \<^verbatim>\<open>get_dir_sizes\<close> over the file names of one directory:
  \<open>acc\<close> is the variable \<^verbatim>\<open>size\<close>. \<^verbatim>\<open>FileNotFoundError\<close> is caught and passed;
  any other error leaves the function.
\<close>

fun dir_size :: "filesystem \<Rightarrow> path \<Rightarrow> string list \<Rightarrow> megabytes \<Rightarrow> os_error + megabytes" where
  "dir_size fs root_dir [] acc = Inr acc"
| "dir_size fs root_dir (filename # rest) acc =
     (let file_path = os_path_join root_dir filename
      in case getsize fs file_path of
           Inr size_bytes \<Rightarrow> dir_size fs root_dir rest (acc + of_nat size_bytes / (1024 * 1024))
         | Inl FileNotFoundError \<Rightarrow> dir_size fs root_dir rest acc
         | Inl OtherOSError \<Rightarrow> Inl OtherOSError)"

fun get_dir_sizes_loop ::
  "filesystem \<Rightarrow> walk_entry list \<Rightarrow> int \<Rightarrow> (megabytes \<times> path) list \<Rightarrow> os_error + (megabytes \<times> path) list" where
  "get_dir_sizes_loop fs [] num_dirs sizes = Inr sizes"
| "get_dir_sizes_loop fs ((root_dir, dirs, names) # rest) num_dirs sizes =
     (case dir_size fs root_dir names 0 of
        Inl e \<Rightarrow> Inl e
      | Inr sz \<Rightarrow>
          (let sizes1 = sizes @ [(sz, root_dir)];
               sizes2 = py_sort_reverse fst sizes1;
               sizes3 = py_slice_to sizes2 num_dirs
           in get_dir_sizes_loop fs rest num_dirs sizes3))"

definition get_dir_sizes :: "filesystem \<Rightarrow> path \<Rightarrow> int \<Rightarrow> os_error + (megabytes \<times> path) list" where
  "get_dir_sizes fs start_dir num_dirs =
     get_dir_sizes_loop fs (os_walk fs start_dir) num_dirs []"

subsection \<open>\<^verbatim>\<open>files/topfiles.py\<close>\<close>

definition MIN_FILE_SIZE :: megabytes where
  "MIN_FILE_SIZE = 1"

text \<open>
  The inner loop of \<^verbatim>\<open>find_large_files\<close> over the file names of one directory. The
  body of the \<^verbatim>\<open>try\<close> runs only when the size lookup succeeds: the file is appended
  when it has at least \<open>MIN_FILE_SIZE\<close> megabytes, and the list is sorted and cut only
  when it has at least \<open>max_files\<close> elements.
\<close>

fun find_large_files_in ::
  "filesystem \<Rightarrow> path \<Rightarrow> string list \<Rightarrow> int \<Rightarrow> (megabytes \<times> path) list \<Rightarrow> os_error + (megabytes \<times> path) list" where
  "find_large_files_in fs root_dir [] max_files files = Inr files"
| "find_large_files_in fs root_dir (filename # rest) max_files files =
     (let file_path = os_path_join root_dir filename
      in case getsize fs file_path of
           Inr size_bytes \<Rightarrow>
             (let size_mb = of_nat size_bytes / (1024 * 1024);
                  files1 = (if size_mb \<ge> MIN_FILE_SIZE then files @ [(size_mb, file_path)] else files);
                  files2 = (if int (length files1) \<ge> max_files
                            then py_slice_to (py_sort_reverse fst files1) max_files
                            else files1)
              in find_large_files_in fs root_dir rest max_files files2)
         | Inl FileNotFoundError \<Rightarrow> find_large_files_in fs root_dir rest max_files files
         | Inl OtherOSError \<Rightarrow> Inl OtherOSError)"

fun find_large_files_loop ::
  "filesystem \<Rightarrow> walk_entry list \<Rightarrow> int \<Rightarrow> (megabytes \<times> path) list \<Rightarrow> os_error + (megabytes \<times> path) list" where
  "find_large_files_loop fs [] max_files files = Inr files"
| "find_large_files_loop fs ((root_dir, dirs, names) # rest) max_files files =
     (case find_large_files_in fs root_dir names max_files files of
        Inl e \<Rightarrow> Inl e
      | Inr files1 \<Rightarrow> find_large_files_loop fs rest max_files files1)"

definition find_large_files :: "filesystem \<Rightarrow> path \<Rightarrow> int \<Rightarrow> os_error + (megabytes \<times> path) list" where
  "find_large_files fs start_dir max_files =
     find_large_files_loop fs (os_walk fs start_dir) max_files []"

definition get_top_n :: "(megabytes \<times> path) list \<Rightarrow> int \<Rightarrow> (megabytes \<times> path) list" where
  "get_top_n files n = py_slice_to (py_sort_reverse fst files) n"

text \<open>The scan of the file mode, as the main program composes it.\<close>

definition top_files :: "filesystem \<Rightarrow> path \<Rightarrow> int \<Rightarrow> os_error + (megabytes \<times> path) list" where
  "top_files fs start_dir num_files =
     (case find_large_files fs start_dir num_files of
        Inl e \<Rightarrow> Inl e
      | Inr files \<Rightarrow> Inr (get_top_n files num_files))"

subsection \<open>The main programs\<close>

text \<open>
  The builtin \<^verbatim>\<open>int\<close>, which converts the first argument, is not part of the
  repository and is not modelled: a main program takes it as the parameter \<open>to_int\<close>,
  with \<open>to_int s = Some n\<close> when \<^verbatim>\<open>int(s)\<close> returns \<open>n\<close> and \<open>to_int s = None\<close> when
  it raises \<^verbatim>\<open>ValueError\<close>. Everything proved about a main program holds for every
  such function.
\<close>

type_synonym int_builtin = "string \<Rightarrow> int option"

text \<open>
  What a run of a tool leaves behind: the lines on standard output, the lines on
  standard error and the exit status. The text of a line is not modelled, only what
  it carries: the header row, or a ranked row with its index, metric and path.
\<close>

datatype 'm out_line = Header | Row nat 'm path

datatype exn = ValueError | OSError os_error

datatype err_line = Usage | Traceback exn

record 'm run =
  stdout :: "'m out_line list"
  stderr :: "err_line list"
  exit_status :: nat

text \<open>
  An exception that nothing catches ends the program with a traceback on standard
  error and exit status 1; the header row is printed before the first argument is
  converted.
\<close>

definition crashed :: "exn \<Rightarrow> 'm run" where
  "crashed e = \<lparr>stdout = [Header], stderr = [Traceback e], exit_status = 1\<rparr>"

definition usage_exit :: "'m run" where
  "usage_exit = \<lparr>stdout = [], stderr = [Usage], exit_status = 1\<rparr>"

text \<open>The rows \<^verbatim>\<open>for i, (m, path) in enumerate(result, 1): print(...)\<close> after the header.\<close>

definition report :: "('m \<times> path) list \<Rightarrow> 'm run" where
  "report result =
     \<lparr>stdout = Header # map (\<lambda>(i, (m, p)). Row i m p) (enumerate 1 result),
      stderr = [], exit_status = 0\<rparr>"

definition main_topcounts :: "int_builtin \<Rightarrow> filesystem \<Rightarrow> string list \<Rightarrow> int run" where
  "main_topcounts to_int fs argv =
     (if length argv \<noteq> 3 then usage_exit
      else case to_int (argv ! 1) of
             None \<Rightarrow> crashed ValueError
           | Some num_dirs \<Rightarrow> report (get_dir_counts fs (argv ! 2) num_dirs))"

definition main_topdirs :: "int_builtin \<Rightarrow> filesystem \<Rightarrow> string list \<Rightarrow> megabytes run" where
  "main_topdirs to_int fs argv =
     (if length argv \<noteq> 3 then usage_exit
      else case to_int (argv ! 1) of
             None \<Rightarrow> crashed ValueError
           | Some num_dirs \<Rightarrow>
               (case get_dir_sizes fs (argv ! 2) num_dirs of
                  Inl e \<Rightarrow> crashed (OSError e)
                | Inr sizes \<Rightarrow> report sizes))"

definition main_topfiles :: "int_builtin \<Rightarrow> filesystem \<Rightarrow> string list \<Rightarrow> megabytes run" where
  "main_topfiles to_int fs argv =
     (if length argv \<noteq> 3 then usage_exit
      else case to_int (argv ! 1) of
             None \<Rightarrow> crashed ValueError
           | Some num_files \<Rightarrow>
               (case find_large_files fs (argv ! 2) num_files of
                  Inl e \<Rightarrow> crashed (OSError e)
                | Inr files \<Rightarrow> report (get_top_n files num_files)))"

subsection \<open>What a scan measures\<close>

text \<open>
  The measurements a scan offers to its list, in discovery order. They are what the
  properties below are stated against; the functions above do not use them.
\<close>

definition count_offer :: "walk_entry \<Rightarrow> int \<times> path" where
  "count_offer e = (case e of (root_dir, dirs, names) \<Rightarrow> (int (length names), root_dir))"

text \<open>
  The megabytes of the files directly in a directory: the sum over its file names, a
  name whose size lookup fails adding nothing.
\<close>

definition file_mb :: "filesystem \<Rightarrow> path \<Rightarrow> megabytes" where
  "file_mb fs p = (case getsize fs p of Inr size_bytes \<Rightarrow> of_nat size_bytes / (1024 * 1024) | Inl e \<Rightarrow> 0)"

definition direct_size :: "filesystem \<Rightarrow> path \<Rightarrow> string list \<Rightarrow> megabytes" where
  "direct_size fs root_dir names = (\<Sum>name\<leftarrow>names. file_mb fs (os_path_join root_dir name))"

definition size_offer :: "filesystem \<Rightarrow> walk_entry \<Rightarrow> megabytes \<times> path" where
  "size_offer fs e = (case e of (root_dir, dirs, names) \<Rightarrow> (direct_size fs root_dir names, root_dir))"

text \<open>The paths of all files of a walk, in the order the loops meet them.\<close>

definition walk_paths :: "walk_entry list \<Rightarrow> path list" where
  "walk_paths entries =
     concat (map (\<lambda>(root_dir, dirs, names). map (os_path_join root_dir) names) entries)"

text \<open>
  A file qualifies in the file mode when its size lookup succeeds with at least
  1048576 bytes.
\<close>

definition qualifies :: "filesystem \<Rightarrow> path \<Rightarrow> bool" where
  "qualifies fs p = (case getsize fs p of Inr size_bytes \<Rightarrow> 1048576 \<le> size_bytes | Inl e \<Rightarrow> False)"

definition file_offers :: "filesystem \<Rightarrow> walk_entry list \<Rightarrow> (megabytes \<times> path) list" where
  "file_offers fs entries = map (\<lambda>p. (file_mb fs p, p)) (filter (qualifies fs) (walk_paths entries))"

text \<open>No size lookup of the walk fails with anything but a vanished file.\<close>

definition stat_ok :: "filesystem \<Rightarrow> walk_entry list \<Rightarrow> bool" where
  "stat_ok fs entries = list_all (\<lambda>p. getsize fs p \<noteq> Inl OtherOSError) (walk_paths entries)"

text \<open>A list of measurements is ranked when its metrics never increase.\<close>

definition non_increasing :: "('k::linorder \<times> 'b) list \<Rightarrow> bool" where
  "non_increasing xs = sorted_wrt (\<lambda>a b. fst b \<le> fst a) xs"

subsection \<open>The selector of the specification\<close>

text \<open>
  Insertion in sorted position into a ranked list, behind the entries of equal metric.
\<close>

fun insert_desc :: "('k::linorder \<times> 'b) \<Rightarrow> ('k \<times> 'b) list \<Rightarrow> ('k \<times> 'b) list" where
  "insert_desc x [] = [x]"
| "insert_desc x (y # ys) = (if fst x \<le> fst y then y # insert_desc x ys else x # y # ys)"

text \<open>
  The compare-and-evict algorithm of the specification, section 4.3, in its words:
  while the list has fewer than \<open>K\<close> entries, insert in sorted position; at capacity,
  compare with the tail entry, evict it and insert when the incoming metric is
  strictly greater, discard the incoming measurement otherwise. A list at capacity
  with no tail entry (\<open>K = 0\<close>) keeps nothing.
\<close>

definition spec_offer :: "nat \<Rightarrow> ('k::linorder \<times> 'b) list \<Rightarrow> ('k \<times> 'b) \<Rightarrow> ('k \<times> 'b) list" where
  "spec_offer K topk m =
     (if length topk < K then insert_desc m topk
      else case rev topk of
             [] \<Rightarrow> topk
           | tail # _ \<Rightarrow> if fst tail < fst m then insert_desc m (butlast topk) else topk)"

definition spec_result :: "nat \<Rightarrow> ('k::linorder \<times> 'b) list \<Rightarrow> ('k \<times> 'b) list" where
  "spec_result K offers = foldl (spec_offer K) [] offers"

text \<open>
  Two lists have the same top \<open>k\<close> when, whatever is offered after them, sorting and
  cutting gives the same \<open>k\<close> entries. This is the invariant that links the list a
  scan retains to the list of everything it was offered.
\<close>

definition same_top :: "nat \<Rightarrow> ('k::linorder \<times> 'b) list \<Rightarrow> ('k \<times> 'b) list \<Rightarrow> bool" where
  "same_top k xs ys =
     (\<forall>zs. take k (py_sort_reverse fst (xs @ zs)) = take k (py_sort_reverse fst (ys @ zs)))"

subsection \<open>File systems of the scenarios\<close>

text \<open>
  Directory \<^verbatim>\<open>/d\<close> holds a file of 2 MB and a file of 3 MB, and its subdirectory
  \<^verbatim>\<open>sub\<close> holds a file of 100 MB.
\<close>

definition scenario_fs :: filesystem where
  "scenario_fs =
     \<lparr>dir_at = (\<lambda>p. if p = ''/d'' then Some (Dir [(''sub'', Dir [] [''big''])] [''a'', ''b'']) else None),
      getsize = (\<lambda>p. case map_of [(''/d/a'', 2097152), (''/d/b'', 3145728), (''/d/sub/big'', 104857600)] p of
                        Some size_bytes \<Rightarrow> Inr size_bytes
                      | None \<Rightarrow> Inl FileNotFoundError)\<rparr>"

text \<open>
  Directory \<^verbatim>\<open>/r\<close> lists four files: one just under the floor (943718 bytes, 0.9 MB
  rounded down), one that has vanished when its size is asked, one of exactly 1 MB
  and one of 5 MB.
\<close>

definition racy_fs :: filesystem where
  "racy_fs =
     \<lparr>dir_at = (\<lambda>p. if p = ''/r'' then Some (Dir [] [''small'', ''gone'', ''exact'', ''large'']) else None),
      getsize = (\<lambda>p. case map_of [(''/r/small'', 943718), (''/r/exact'', 1048576), (''/r/large'', 5242880)] p of
                        Some size_bytes \<Rightarrow> Inr size_bytes
                      | None \<Rightarrow> Inl FileNotFoundError)\<rparr>"

text \<open>Three directories with five, five and three files, as a walk would list them.\<close>

definition tie_entries :: "walk_entry list" where
  "tie_entries =
     [(''a'', [], [''1'', ''2'', ''3'', ''4'', ''5'']),
      (''b'', [], [''1'', ''2'', ''3'', ''4'', ''5'']),
      (''c'', [], [''1'', ''2'', ''3''])]"

text \<open>
  Directory \<^verbatim>\<open>/l\<close> can be listed but not searched: its file is listed, and every
  size lookup raises \<^verbatim>\<open>PermissionError\<close>.
\<close>

definition locked_fs :: filesystem where
  "locked_fs =
     \<lparr>dir_at = (\<lambda>p. if p = ''/l'' then Some (Dir [] [''secret'']) else None),
      getsize = (\<lambda>p. Inl OtherOSError)\<rparr>"

text \<open>
  What \<^verbatim>\<open>int\<close> gives on the argument strings the scenarios pass to a tool: the
  number a decimal literal denotes, and \<^verbatim>\<open>ValueError\<close> on the two words. On every
  other string nothing is said; the scenarios apply it to these strings only.
\<close>

definition scenario_int :: int_builtin where
  "scenario_int s =
     (if s = ''5'' then Some 5
      else if s = ''2'' then Some 2
      else if s = ''0'' then Some 0
      else if s = ''-3'' then Some (- 3)
      else if s = ''abc'' \<or> s = ''many'' then None
      else undefined)"

section \<open>Properties\<close>

subsection \<open>Python's stable descending sort as insertion\<close>

lemma insert_desc_snoc_small:
  "fst y < fst x \<Longrightarrow> insert_desc x (ys @ [y]) = insert_desc x ys @ [y]"
  by (induction ys) auto

lemma insert_desc_all_ge:
  "\<forall>y\<in>set ys. fst x \<le> fst y \<Longrightarrow> insert_desc x ys = ys @ [x]"
  by (induction ys) auto

lemma rev_insort_key:
  "sorted (map fst ys) \<Longrightarrow> rev (insort_key fst x ys) = insert_desc x (rev ys)"
proof (induction ys)
  case Nil
  then show ?case by simp
next
  case (Cons y ys)
  show ?case
  proof (cases "fst x \<le> fst y")
    case True
    with Cons.prems have "\<forall>z\<in>set (rev ys @ [y]). fst x \<le> fst z"
      by auto
    then have "insert_desc x (rev ys @ [y]) = (rev ys @ [y]) @ [x]"
      by (rule insert_desc_all_ge)
    with True show ?thesis by simp
  next
    case False
    then have "fst y < fst x" by simp
    then have "insert_desc x (rev ys @ [y]) = insert_desc x (rev ys) @ [y]"
      by (rule insert_desc_snoc_small)
    with False Cons show ?thesis by simp
  qed
qed

lemma py_sort_reverse_Nil: "py_sort_reverse fst [] = []"
  by (simp add: py_sort_reverse_def)

lemma py_sort_reverse_snoc:
  "py_sort_reverse fst (xs @ [x]) = insert_desc x (py_sort_reverse fst xs)"
  by (simp add: py_sort_reverse_def rev_insort_key)

lemma non_increasing_py_sort_reverse: "non_increasing (py_sort_reverse fst xs)"
proof -
  have "sorted (map fst (sort_key fst (rev xs)))" by simp
  then have "sorted_wrt (\<lambda>a b. fst a \<le> fst b) (sort_key fst (rev xs))"
    by (simp add: sorted_wrt_map)
  then show ?thesis
    by (simp add: non_increasing_def py_sort_reverse_def sorted_wrt_rev)
qed

lemma py_sort_reverse_id:
  assumes "non_increasing xs" shows "py_sort_reverse fst xs = xs"
proof -
  from assms have "sorted_wrt (\<lambda>a b. fst a \<le> fst b) (rev xs)"
    by (simp add: non_increasing_def sorted_wrt_rev)
  then have "sorted (map fst (rev xs))"
    by (simp add: sorted_wrt_map)
  then show ?thesis
    by (simp add: py_sort_reverse_def sort_key_id_if_sorted)
qed

lemma py_sort_reverse_stable:
  "filter (\<lambda>y. fst y = m) (py_sort_reverse fst xs) = filter (\<lambda>y. fst y = m) xs"
proof -
  have "filter (\<lambda>y. fst y = m) (rev (sort_key fst (rev xs))) = rev (filter (\<lambda>y. fst y = m) (sort_key fst (rev xs)))"
    by (rule rev_filter [symmetric])
  also have "\<dots> = rev (filter (\<lambda>y. fst y = m) (rev xs))"
    by (simp only: sort_key_stable)
  also have "\<dots> = filter (\<lambda>y. fst y = m) xs"
    by (simp only: rev_filter rev_rev_ident)
  finally show ?thesis by (simp only: py_sort_reverse_def)
qed

lemma mset_py_sort_reverse: "mset (py_sort_reverse fst xs) = mset xs"
  by (simp add: py_sort_reverse_def)

lemma length_py_sort_reverse: "length (py_sort_reverse fst xs) = length xs"
  by (simp add: py_sort_reverse_def)

lemma set_py_sort_reverse: "set (py_sort_reverse fst xs) = set xs"
  by (simp add: py_sort_reverse_def)

lemma length_insert_desc: "length (insert_desc x ys) = Suc (length ys)"
  by (induction ys) auto

lemma take_insert_desc_take:
  "take k (insert_desc x (take k ys)) = take k (insert_desc x ys)"
proof (induction ys arbitrary: k)
  case Nil
  then show ?case by simp
next
  case (Cons y ys)
  show ?case
  proof (cases k)
    case 0
    then show ?thesis by simp
  next
    case (Suc j)
    then show ?thesis using Cons.IH [of j]
      by (cases j) auto
  qed
qed

lemma py_sort_reverse_append:
  "py_sort_reverse fst (xs @ ys) = foldl (\<lambda>acc y. insert_desc y acc) (py_sort_reverse fst xs) ys"
proof (induction ys rule: rev_induct)
  case Nil
  then show ?case by simp
next
  case (snoc y ys)
  have "py_sort_reverse fst (xs @ ys @ [y]) = insert_desc y (py_sort_reverse fst (xs @ ys))"
    using py_sort_reverse_snoc [of "xs @ ys" y] by simp
  with snoc show ?case by simp
qed

lemma take_foldl_insert_desc:
  "take k xs = take k ys \<Longrightarrow>
   take k (foldl (\<lambda>acc y. insert_desc y acc) xs zs) = take k (foldl (\<lambda>acc y. insert_desc y acc) ys zs)"
proof (induction zs arbitrary: xs ys)
  case Nil
  then show ?case by simp
next
  case (Cons z zs)
  have "take k (insert_desc z xs) = take k (insert_desc z ys)"
    using take_insert_desc_take [of k z xs] take_insert_desc_take [of k z ys] Cons.prems by simp
  then have "take k (foldl (\<lambda>acc y. insert_desc y acc) (insert_desc z xs) zs)
    = take k (foldl (\<lambda>acc y. insert_desc y acc) (insert_desc z ys) zs)"
    by (rule Cons.IH)
  then show ?case by simp
qed

lemma take_sort_take_sort:
  "take k (py_sort_reverse fst (take k (py_sort_reverse fst xs) @ ys))
   = take k (py_sort_reverse fst (xs @ ys))"
proof -
  have ni: "non_increasing (take k (py_sort_reverse fst xs))"
    using non_increasing_py_sort_reverse [of xs]
    by (simp add: non_increasing_def sorted_wrt_take)
  have "py_sort_reverse fst (take k (py_sort_reverse fst xs)) = take k (py_sort_reverse fst xs)"
    using ni by (rule py_sort_reverse_id)
  then have "take k (py_sort_reverse fst (take k (py_sort_reverse fst xs))) = take k (py_sort_reverse fst xs)"
    by simp
  then have "take k (foldl (\<lambda>acc y. insert_desc y acc) (py_sort_reverse fst (take k (py_sort_reverse fst xs))) ys)
     = take k (foldl (\<lambda>acc y. insert_desc y acc) (py_sort_reverse fst xs) ys)"
    by (rule take_foldl_insert_desc)
  then show ?thesis
    by (simp only: py_sort_reverse_append)
qed

lemma py_slice_to_nonneg: "0 \<le> n \<Longrightarrow> py_slice_to xs n = take (nat n) xs"
  by (simp add: py_slice_to_def)

lemma py_slice_to_neg_short: "n < 0 \<Longrightarrow> length xs \<le> 1 \<Longrightarrow> py_slice_to xs n = []"
  by (simp add: py_slice_to_def)

lemma py_slice_to_nonpos_short: "n \<le> 0 \<Longrightarrow> length xs \<le> 1 \<Longrightarrow> py_slice_to xs n = []"
  by (simp add: py_slice_to_def)

lemma set_py_slice_to: "set (py_slice_to xs n) \<subseteq> set xs"
  by (auto simp: py_slice_to_def dest: in_set_takeD)

subsection \<open>The closed form of \<^verbatim>\<open>get_dir_counts\<close>\<close>

lemma get_dir_counts_loop_append:
  "get_dir_counts_loop (xs @ ys) K counts = get_dir_counts_loop ys K (get_dir_counts_loop xs K counts)"
  by (induction xs K counts rule: get_dir_counts_loop.induct) (simp_all add: Let_def)

lemma get_dir_counts_loop_take:
  "0 \<le> K \<Longrightarrow>
   get_dir_counts_loop entries K (take (nat K) (py_sort_reverse fst offered))
   = take (nat K) (py_sort_reverse fst (offered @ map count_offer entries))"
proof (induction entries arbitrary: offered)
  case Nil
  then show ?case by simp
next
  case (Cons e entries)
  obtain root_dir dirs names where e: "e = (root_dir, dirs, names)"
    by (cases e)
  have step: "take (nat K) (py_sort_reverse fst (take (nat K) (py_sort_reverse fst offered) @ [count_offer e]))
      = take (nat K) (py_sort_reverse fst (offered @ [count_offer e]))"
    by (rule take_sort_take_sort)
  have "get_dir_counts_loop (e # entries) K (take (nat K) (py_sort_reverse fst offered))
      = get_dir_counts_loop entries K (take (nat K) (py_sort_reverse fst (offered @ [count_offer e])))"
    using Cons.prems step by (simp add: e count_offer_def py_slice_to_nonneg)
  also have "\<dots> = take (nat K) (py_sort_reverse fst ((offered @ [count_offer e]) @ map count_offer entries))"
    using Cons.prems by (rule Cons.IH)
  finally show ?case by simp
qed

lemma get_dir_counts_loop_neg:
  "K < 0 \<Longrightarrow> get_dir_counts_loop entries K [] = []"
  by (induction entries) (auto simp: py_slice_to_neg_short length_py_sort_reverse)

lemma get_dir_counts_loop_closed:
  "get_dir_counts_loop entries K [] = take (nat K) (py_sort_reverse fst (map count_offer entries))"
proof (cases "0 \<le> K")
  case True
  then show ?thesis
    using get_dir_counts_loop_take [of K entries "[]"] by (simp add: py_sort_reverse_Nil)
next
  case False
  then show ?thesis by (simp add: get_dir_counts_loop_neg)
qed

subsection \<open>The closed form of \<^verbatim>\<open>get_dir_sizes\<close>\<close>

lemma dir_size_closed:
  "dir_size fs root_dir names acc =
     (if list_all (\<lambda>name. getsize fs (os_path_join root_dir name) \<noteq> Inl OtherOSError) names
      then Inr (acc + direct_size fs root_dir names) else Inl OtherOSError)"
proof (induction names arbitrary: acc)
  case Nil
  then show ?case by (simp add: direct_size_def)
next
  case (Cons name names)
  show ?case
  proof (cases "getsize fs (os_path_join root_dir name)")
    case (Inl e)
    then show ?thesis using Cons.IH [of acc]
      by (cases e) (simp_all add: direct_size_def file_mb_def)
  next
    case (Inr b)
    then show ?thesis using Cons.IH [of "acc + of_nat b / (1024 * 1024)"]
      by (simp add: direct_size_def file_mb_def add.assoc)
  qed
qed

lemma walk_paths_Nil: "walk_paths [] = []"
  by (simp add: walk_paths_def)

lemma walk_paths_Cons:
  "walk_paths ((root_dir, dirs, names) # entries) = map (os_path_join root_dir) names @ walk_paths entries"
  by (simp add: walk_paths_def)

lemma stat_ok_Nil: "stat_ok fs []"
  by (simp add: stat_ok_def walk_paths_def)

lemma stat_ok_Cons:
  "stat_ok fs ((root_dir, dirs, names) # entries) =
     (list_all (\<lambda>name. getsize fs (os_path_join root_dir name) \<noteq> Inl OtherOSError) names
      \<and> stat_ok fs entries)"
  by (simp add: stat_ok_def walk_paths_Cons list_all_iff) blast

lemma get_dir_sizes_loop_take:
  "0 \<le> K \<Longrightarrow>
   get_dir_sizes_loop fs entries K (take (nat K) (py_sort_reverse fst offered))
   = (if stat_ok fs entries
      then Inr (take (nat K) (py_sort_reverse fst (offered @ map (size_offer fs) entries)))
      else Inl OtherOSError)"
proof (induction entries arbitrary: offered)
  case Nil
  then show ?case by (simp add: stat_ok_Nil)
next
  case (Cons e entries)
  obtain root_dir dirs names where e: "e = (root_dir, dirs, names)"
    by (cases e)
  show ?case
  proof (cases "list_all (\<lambda>name. getsize fs (os_path_join root_dir name) \<noteq> Inl OtherOSError) names")
    case False
    then show ?thesis by (simp add: e dir_size_closed stat_ok_Cons)
  next
    case True
    have step: "take (nat K) (py_sort_reverse fst (take (nat K) (py_sort_reverse fst offered) @ [size_offer fs e]))
        = take (nat K) (py_sort_reverse fst (offered @ [size_offer fs e]))"
      by (rule take_sort_take_sort)
    have "get_dir_sizes_loop fs (e # entries) K (take (nat K) (py_sort_reverse fst offered))
        = get_dir_sizes_loop fs entries K (take (nat K) (py_sort_reverse fst (offered @ [size_offer fs e])))"
      using Cons.prems True step by (simp add: e dir_size_closed size_offer_def py_slice_to_nonneg)
    also have "\<dots> = (if stat_ok fs entries
        then Inr (take (nat K) (py_sort_reverse fst ((offered @ [size_offer fs e]) @ map (size_offer fs) entries)))
        else Inl OtherOSError)"
      using Cons.prems by (rule Cons.IH)
    finally show ?thesis using True by (simp add: e stat_ok_Cons)
  qed
qed

lemma get_dir_sizes_loop_neg:
  "K < 0 \<Longrightarrow> get_dir_sizes_loop fs entries K [] = (if stat_ok fs entries then Inr [] else Inl OtherOSError)"
proof (induction entries)
  case Nil
  then show ?case by (simp add: stat_ok_Nil)
next
  case (Cons e entries)
  obtain root_dir dirs names where e: "e = (root_dir, dirs, names)"
    by (cases e)
  show ?case using Cons
    by (simp add: e dir_size_closed stat_ok_Cons py_slice_to_neg_short length_py_sort_reverse)
qed

lemma get_dir_sizes_loop_closed:
  "get_dir_sizes_loop fs entries K [] =
     (if stat_ok fs entries
      then Inr (take (nat K) (py_sort_reverse fst (map (size_offer fs) entries)))
      else Inl OtherOSError)"
proof (cases "0 \<le> K")
  case True
  then show ?thesis
    using get_dir_sizes_loop_take [of K fs entries "[]"] by (simp add: py_sort_reverse_Nil)
next
  case False
  then show ?thesis by (simp add: get_dir_sizes_loop_neg)
qed

lemma get_dir_sizes_loop_append:
  "get_dir_sizes_loop fs (xs @ ys) K sizes =
     (case get_dir_sizes_loop fs xs K sizes of Inl e \<Rightarrow> Inl e | Inr sizes1 \<Rightarrow> get_dir_sizes_loop fs ys K sizes1)"
  by (induction fs xs K sizes rule: get_dir_sizes_loop.induct) (simp_all add: Let_def split: sum.splits)

subsection \<open>The closed form of \<^verbatim>\<open>find_large_files\<close> and \<^verbatim>\<open>get_top_n\<close>\<close>

lemma same_top_refl: "same_top k xs xs"
  by (simp add: same_top_def)

lemma same_top_trans: "same_top k xs ys \<Longrightarrow> same_top k ys zs \<Longrightarrow> same_top k xs zs"
  by (simp add: same_top_def)

lemma same_top_snoc: "same_top k xs ys \<Longrightarrow> same_top k (xs @ [x]) (ys @ [x])"
  by (simp add: same_top_def)

lemma same_top_cut: "same_top k (take k (py_sort_reverse fst xs)) xs"
  by (simp add: same_top_def take_sort_take_sort)

lemma same_top_result: "same_top k xs ys \<Longrightarrow> take k (py_sort_reverse fst xs) = take k (py_sort_reverse fst ys)"
  unfolding same_top_def
proof -
  assume "\<forall>zs. take k (py_sort_reverse fst (xs @ zs)) = take k (py_sort_reverse fst (ys @ zs))"
  then have "take k (py_sort_reverse fst (xs @ [])) = take k (py_sort_reverse fst (ys @ []))"
    by (rule spec)
  then show ?thesis by simp
qed

lemma min_file_size_bytes:
  "(MIN_FILE_SIZE \<le> of_nat b / (1024 * 1024)) = (1048576 \<le> b)"
proof -
  have "((1::rat) \<le> of_nat b / 1048576) = ((1048576::rat) \<le> of_nat b)"
    by simp
  also have "\<dots> = (of_nat (1048576::nat) \<le> (of_nat b :: rat))"
    by simp
  also have "\<dots> = (1048576 \<le> b)"
    by (simp only: of_nat_le_iff)
  finally show ?thesis by (simp add: MIN_FILE_SIZE_def)
qed

text \<open>One successful size lookup of \<open>find_large_files\<close>: append when large, cut when full.\<close>

lemma find_large_files_step:
  assumes "0 \<le> K" and "same_top (nat K) files offered" and "getsize fs p = Inr b"
  shows "same_top (nat K)
           (let files1 = (if of_nat b / (1024 * 1024) \<ge> MIN_FILE_SIZE then files @ [(of_nat b / (1024 * 1024), p)] else files)
            in if int (length files1) \<ge> K then py_slice_to (py_sort_reverse fst files1) K else files1)
           (offered @ map (\<lambda>p. (file_mb fs p, p)) (filter (qualifies fs) [p]))"
proof -
  define files1 where "files1 = (if of_nat b / (1024 * 1024) \<ge> MIN_FILE_SIZE then files @ [(of_nat b / (1024 * 1024), p)] else files)"
  define offered1 where "offered1 = offered @ map (\<lambda>p. (file_mb fs p, p)) (filter (qualifies fs) [p])"
  have q: "qualifies fs p = (1048576 \<le> b)"
    using assms(3) by (simp add: qualifies_def)
  have m: "file_mb fs p = of_nat b / (1024 * 1024)"
    using assms(3) by (simp add: file_mb_def)
  have one: "same_top (nat K) files1 offered1"
  proof (cases "1048576 \<le> b")
    case True
    then have "MIN_FILE_SIZE \<le> of_nat b / (1024 * 1024)"
      using min_file_size_bytes [of b] by blast
    then have f: "files1 = files @ [(of_nat b / (1024 * 1024), p)]"
      unfolding files1_def by (rule if_P)
    have o: "offered1 = offered @ [(of_nat b / (1024 * 1024), p)]"
      using True by (simp add: offered1_def q m)
    show ?thesis
      unfolding f o using assms(2) by (rule same_top_snoc)
  next
    case False
    then have "\<not> MIN_FILE_SIZE \<le> of_nat b / (1024 * 1024)"
      using min_file_size_bytes [of b] by blast
    then have f: "files1 = files"
      unfolding files1_def by (rule if_not_P)
    have o: "offered1 = offered"
      using False by (simp add: offered1_def q)
    show ?thesis
      unfolding f o by (rule assms(2))
  qed
  have "same_top (nat K) (if int (length files1) \<ge> K then py_slice_to (py_sort_reverse fst files1) K else files1) offered1"
  proof (cases "int (length files1) \<ge> K")
    case True
    have "same_top (nat K) (take (nat K) (py_sort_reverse fst files1)) files1"
      by (rule same_top_cut)
    then have "same_top (nat K) (take (nat K) (py_sort_reverse fst files1)) offered1"
      using one by (rule same_top_trans)
    then show ?thesis using True assms(1) by (simp add: py_slice_to_nonneg)
  next
    case False
    then show ?thesis using one by simp
  qed
  then show ?thesis unfolding files1_def offered1_def Let_def .
qed

lemma find_large_files_in_same_top:
  "0 \<le> K \<Longrightarrow> same_top (nat K) files offered \<Longrightarrow>
   find_large_files_in fs root_dir names K files = Inr files' \<Longrightarrow>
   same_top (nat K) files'
     (offered @ map (\<lambda>p. (file_mb fs p, p)) (filter (qualifies fs) (map (os_path_join root_dir) names)))"
proof (induction names arbitrary: files offered)
  case Nil
  then show ?case by simp
next
  case (Cons name names)
  define p where "p = os_path_join root_dir name"
  show ?case
  proof (cases "getsize fs p")
    case (Inl e)
    with Cons.prems(3) have e: "e = FileNotFoundError"
      by (cases e) (simp_all add: p_def)
    have nq: "\<not> qualifies fs p"
      using Inl by (simp add: qualifies_def)
    have "find_large_files_in fs root_dir names K files = Inr files'"
      using Cons.prems(3) Inl e by (simp add: p_def)
    with Cons.prems(1,2) have "same_top (nat K) files'
        (offered @ map (\<lambda>p. (file_mb fs p, p)) (filter (qualifies fs) (map (os_path_join root_dir) names)))"
      by (rule Cons.IH)
    then show ?thesis using nq by (simp add: p_def)
  next
    case (Inr b)
    define files2 where "files2 =
       (let files1 = (if of_nat b / (1024 * 1024) \<ge> MIN_FILE_SIZE then files @ [(of_nat b / (1024 * 1024), p)] else files)
        in if int (length files1) \<ge> K then py_slice_to (py_sort_reverse fst files1) K else files1)"
    have st: "same_top (nat K) files2 (offered @ map (\<lambda>p. (file_mb fs p, p)) (filter (qualifies fs) [p]))"
      unfolding files2_def using Cons.prems(1,2) Inr by (rule find_large_files_step)
    have "find_large_files_in fs root_dir (name # names) K files = find_large_files_in fs root_dir names K files2"
      unfolding files2_def p_def
      by (simp only: find_large_files_in.simps Let_def Inr [unfolded p_def] sum.case)
    then have "find_large_files_in fs root_dir names K files2 = Inr files'"
      using Cons.prems(3) by simp
    with Cons.prems(1) st have "same_top (nat K) files'
        ((offered @ map (\<lambda>p. (file_mb fs p, p)) (filter (qualifies fs) [p]))
          @ map (\<lambda>p. (file_mb fs p, p)) (filter (qualifies fs) (map (os_path_join root_dir) names)))"
      by (rule Cons.IH)
    then show ?thesis
      by (cases "qualifies fs (os_path_join root_dir name)") (simp_all add: p_def)
  qed
qed

lemma find_large_files_in_cons_ok:
  assumes "getsize fs (os_path_join root_dir name) = Inr b"
  shows "\<exists>files2. \<forall>names. find_large_files_in fs root_dir (name # names) K files
            = find_large_files_in fs root_dir names K files2"
  by (rule exI, rule allI) (simp only: find_large_files_in.simps Let_def assms sum.case)

lemma find_large_files_in_cons_gone:
  assumes "getsize fs (os_path_join root_dir name) = Inl FileNotFoundError"
  shows "find_large_files_in fs root_dir (name # names) K files
            = find_large_files_in fs root_dir names K files"
  using assms by simp

lemma find_large_files_in_returns:
  "list_all (\<lambda>name. getsize fs (os_path_join root_dir name) \<noteq> Inl OtherOSError) names \<Longrightarrow>
   \<exists>files'. find_large_files_in fs root_dir names K files = Inr files'"
proof (induction names arbitrary: files)
  case Nil
  then show ?case by simp
next
  case (Cons name names)
  then have ok: "list_all (\<lambda>name. getsize fs (os_path_join root_dir name) \<noteq> Inl OtherOSError) names"
    and here: "getsize fs (os_path_join root_dir name) \<noteq> Inl OtherOSError"
    by simp_all
  show ?case
  proof (cases "getsize fs (os_path_join root_dir name)")
    case (Inl e)
    with here have "getsize fs (os_path_join root_dir name) = Inl FileNotFoundError"
      by (cases e) simp_all
    then show ?thesis
      using Cons.IH [OF ok, of files] by (simp only: find_large_files_in_cons_gone)
  next
    case (Inr b)
    then obtain files2 where "find_large_files_in fs root_dir (name # names) K files
            = find_large_files_in fs root_dir names K files2"
      using find_large_files_in_cons_ok by blast
    then show ?thesis
      using Cons.IH [OF ok, of files2] by simp
  qed
qed

lemma find_large_files_in_raises:
  "\<not> list_all (\<lambda>name. getsize fs (os_path_join root_dir name) \<noteq> Inl OtherOSError) names \<Longrightarrow>
   find_large_files_in fs root_dir names K files = Inl OtherOSError"
proof (induction names arbitrary: files)
  case Nil
  then show ?case by simp
next
  case (Cons name names)
  show ?case
  proof (cases "getsize fs (os_path_join root_dir name)")
    case (Inl e)
    show ?thesis
    proof (cases e)
      case FileNotFoundError
      with Inl have gone: "getsize fs (os_path_join root_dir name) = Inl FileNotFoundError"
        by simp
      with Cons.prems have "\<not> list_all (\<lambda>name. getsize fs (os_path_join root_dir name) \<noteq> Inl OtherOSError) names"
        by simp
      then have "find_large_files_in fs root_dir names K files = Inl OtherOSError"
        by (rule Cons.IH)
      then show ?thesis
        by (simp only: find_large_files_in_cons_gone [OF gone])
    next
      case OtherOSError
      with Inl show ?thesis by simp
    qed
  next
    case (Inr b)
    then obtain files2 where step: "find_large_files_in fs root_dir (name # names) K files
            = find_large_files_in fs root_dir names K files2"
      using find_large_files_in_cons_ok by blast
    from Inr Cons.prems have "\<not> list_all (\<lambda>name. getsize fs (os_path_join root_dir name) \<noteq> Inl OtherOSError) names"
      by simp
    then have "find_large_files_in fs root_dir names K files2 = Inl OtherOSError"
      by (rule Cons.IH)
    then show ?thesis
      by (simp only: step)
  qed
qed

lemma find_large_files_loop_returns:
  "stat_ok fs entries \<Longrightarrow> \<exists>files'. find_large_files_loop fs entries K files = Inr files'"
proof (induction entries arbitrary: files)
  case Nil
  then show ?case by simp
next
  case (Cons e entries)
  obtain root_dir dirs names where e: "e = (root_dir, dirs, names)"
    by (cases e)
  from Cons.prems have ok: "list_all (\<lambda>name. getsize fs (os_path_join root_dir name) \<noteq> Inl OtherOSError) names"
    and rest: "stat_ok fs entries"
    by (simp_all add: e stat_ok_Cons)
  from ok obtain files1 where f1: "find_large_files_in fs root_dir names K files = Inr files1"
    using find_large_files_in_returns by blast
  show ?case
    using Cons.IH [OF rest, of files1] by (simp add: e f1)
qed

lemma find_large_files_loop_raises:
  "\<not> stat_ok fs entries \<Longrightarrow> find_large_files_loop fs entries K files = Inl OtherOSError"
proof (induction entries arbitrary: files)
  case Nil
  then show ?case by (simp add: stat_ok_Nil)
next
  case (Cons e entries)
  obtain root_dir dirs names where e: "e = (root_dir, dirs, names)"
    by (cases e)
  show ?case
  proof (cases "list_all (\<lambda>name. getsize fs (os_path_join root_dir name) \<noteq> Inl OtherOSError) names")
    case False
    then show ?thesis
      by (simp add: e find_large_files_in_raises)
  next
    case True
    then obtain files1 where f1: "find_large_files_in fs root_dir names K files = Inr files1"
      using find_large_files_in_returns by blast
    from True Cons.prems have "\<not> stat_ok fs entries"
      by (simp add: e stat_ok_Cons)
    then have "find_large_files_loop fs entries K files1 = Inl OtherOSError"
      by (rule Cons.IH)
    then show ?thesis
      by (simp add: e f1)
  qed
qed

lemma file_offers_Nil: "file_offers fs [] = []"
  by (simp add: file_offers_def walk_paths_Nil)

lemma file_offers_Cons:
  "file_offers fs ((root_dir, dirs, names) # entries) =
     map (\<lambda>p. (file_mb fs p, p)) (filter (qualifies fs) (map (os_path_join root_dir) names))
     @ file_offers fs entries"
  by (simp add: file_offers_def walk_paths_Cons)

lemma find_large_files_loop_same_top:
  "0 \<le> K \<Longrightarrow> same_top (nat K) files offered \<Longrightarrow>
   find_large_files_loop fs entries K files = Inr files' \<Longrightarrow>
   same_top (nat K) files' (offered @ file_offers fs entries)"
proof (induction entries arbitrary: files offered)
  case Nil
  then show ?case by (simp add: file_offers_Nil)
next
  case (Cons e entries)
  obtain root_dir dirs names where e: "e = (root_dir, dirs, names)"
    by (cases e)
  from Cons.prems(3) obtain files1 where
    f1: "find_large_files_in fs root_dir names K files = Inr files1" and
    f2: "find_large_files_loop fs entries K files1 = Inr files'"
    by (auto simp: e split: sum.splits)
  have "same_top (nat K) files1
     (offered @ map (\<lambda>p. (file_mb fs p, p)) (filter (qualifies fs) (map (os_path_join root_dir) names)))"
    using Cons.prems(1,2) f1 by (rule find_large_files_in_same_top)
  with Cons.prems(1) have "same_top (nat K) files'
     ((offered @ map (\<lambda>p. (file_mb fs p, p)) (filter (qualifies fs) (map (os_path_join root_dir) names)))
       @ file_offers fs entries)"
    using f2 by (rule Cons.IH)
  then show ?case by (simp add: e file_offers_Cons)
qed

lemma find_large_files_in_neg:
  "K \<le> 0 \<Longrightarrow> find_large_files_in fs root_dir names K [] = Inr files' \<Longrightarrow> files' = []"
proof (induction names)
  case Nil
  then show ?case by simp
next
  case (Cons name names)
  show ?case
  proof (cases "getsize fs (os_path_join root_dir name)")
    case (Inl e)
    then show ?thesis using Cons by (cases e) simp_all
  next
    case (Inr b)
    define files1 :: "(megabytes \<times> path) list" where "files1 = (if of_nat b / (1024 * 1024) \<ge> MIN_FILE_SIZE
       then [] @ [(of_nat b / (1024 * 1024), os_path_join root_dir name)] else [])"
    have len: "length files1 \<le> 1"
      by (simp add: files1_def)
    then have "py_slice_to (py_sort_reverse fst files1) K = []"
      using Cons.prems(1) by (simp add: py_slice_to_nonpos_short length_py_sort_reverse)
    moreover have "int (length files1) \<ge> K"
      using Cons.prems(1) by simp
    ultimately have "(if int (length files1) \<ge> K then py_slice_to (py_sort_reverse fst files1) K else files1) = []"
      by simp
    then have "find_large_files_in fs root_dir (name # names) K [] = find_large_files_in fs root_dir names K []"
      unfolding files1_def
      by (simp only: find_large_files_in.simps Let_def Inr sum.case)
    then show ?thesis using Cons by simp
  qed
qed

lemma find_large_files_loop_neg:
  "K \<le> 0 \<Longrightarrow> find_large_files_loop fs entries K [] = Inr files' \<Longrightarrow> files' = []"
proof (induction entries)
  case Nil
  then show ?case by simp
next
  case (Cons e entries)
  obtain root_dir dirs names where e: "e = (root_dir, dirs, names)"
    by (cases e)
  from Cons.prems(2) obtain files1 where
    f1: "find_large_files_in fs root_dir names K [] = Inr files1" and
    f2: "find_large_files_loop fs entries K files1 = Inr files'"
    by (auto simp: e split: sum.splits)
  from Cons.prems(1) f1 have "files1 = []" by (rule find_large_files_in_neg)
  with Cons f2 show ?case by simp
qed

lemma get_top_n_Nil: "get_top_n [] n = []"
  by (simp add: get_top_n_def py_slice_to_def py_sort_reverse_Nil)

lemma top_files_closed:
  "top_files fs start_dir K =
     (if stat_ok fs (os_walk fs start_dir)
      then Inr (take (nat K) (py_sort_reverse fst (file_offers fs (os_walk fs start_dir))))
      else Inl OtherOSError)"
proof (cases "stat_ok fs (os_walk fs start_dir)")
  case False
  then show ?thesis
    by (simp add: top_files_def find_large_files_def find_large_files_loop_raises)
next
  case True
  then obtain files where f: "find_large_files_loop fs (os_walk fs start_dir) K [] = Inr files"
    using find_large_files_loop_returns by blast
  show ?thesis
  proof (cases "0 \<le> K")
    case nonneg: True
    have "same_top (nat K) files ([] @ file_offers fs (os_walk fs start_dir))"
      using nonneg same_top_refl f by (rule find_large_files_loop_same_top)
    then have "take (nat K) (py_sort_reverse fst files)
        = take (nat K) (py_sort_reverse fst (file_offers fs (os_walk fs start_dir)))"
      using same_top_result by fastforce
    then show ?thesis using True nonneg
      by (simp add: top_files_def find_large_files_def f get_top_n_def py_slice_to_nonneg)
  next
    case neg: False
    then have "K \<le> 0" by simp
    then have "files = []" using f by (rule find_large_files_loop_neg)
    then show ?thesis using True neg
      by (simp add: top_files_def find_large_files_def f get_top_n_Nil)
  qed
qed

subsection \<open>The selector of the specification, and auxiliary facts\<close>

lemma non_increasing_snoc_ge:
  "non_increasing (ys @ [t]) \<Longrightarrow> y \<in> set (ys @ [t]) \<Longrightarrow> fst t \<le> fst y"
  by (auto simp: non_increasing_def sorted_wrt_append)

lemma spec_offer_take:
  assumes "non_increasing topk" and "length topk \<le> k"
  shows "spec_offer k topk m = take k (insert_desc m topk)"
proof (cases "length topk < k")
  case True
  then show ?thesis by (simp add: spec_offer_def length_insert_desc)
next
  case False
  with assms(2) have full: "length topk = k" by simp
  show ?thesis
  proof (cases topk rule: rev_cases)
    case Nil
    with full show ?thesis by (simp add: spec_offer_def)
  next
    case (snoc ys t)
    show ?thesis
    proof (cases "fst t < fst m")
      case True
      then have "insert_desc m (ys @ [t]) = insert_desc m ys @ [t]"
        by (rule insert_desc_snoc_small)
      moreover have "length (insert_desc m ys) = k"
        using full snoc by (simp add: length_insert_desc)
      ultimately have "take k (insert_desc m topk) = insert_desc m ys"
        using snoc by simp
      then show ?thesis
        using True False snoc by (simp add: spec_offer_def)
    next
      case small: False
      have "\<forall>y\<in>set (ys @ [t]). fst m \<le> fst y"
      proof
        fix y assume "y \<in> set (ys @ [t])"
        with assms(1) snoc have "fst t \<le> fst y"
          using non_increasing_snoc_ge by blast
        with small show "fst m \<le> fst y" by simp
      qed
      then have "insert_desc m (ys @ [t]) = (ys @ [t]) @ [m]"
        by (rule insert_desc_all_ge)
      then have "insert_desc m topk = topk @ [m]"
        using snoc by simp
      then have "take k (insert_desc m topk) = topk"
        unfolding full [symmetric] by simp
      then show ?thesis
        using small False snoc by (simp add: spec_offer_def)
    qed
  qed
qed

lemma non_increasing_take_sort: "non_increasing (take k (py_sort_reverse fst xs))"
  using non_increasing_py_sort_reverse [of xs]
  by (simp add: non_increasing_def sorted_wrt_take)

lemma spec_result_closed:
  "spec_result k offers = take k (py_sort_reverse fst offers)"
proof (induction offers rule: rev_induct)
  case Nil
  then show ?case by (simp add: spec_result_def py_sort_reverse_Nil)
next
  case (snoc m offers)
  have "spec_result k (offers @ [m]) = spec_offer k (take k (py_sort_reverse fst offers)) m"
    using snoc by (simp add: spec_result_def)
  also have "\<dots> = take k (insert_desc m (take k (py_sort_reverse fst offers)))"
    by (rule spec_offer_take) (simp_all add: non_increasing_take_sort)
  also have "\<dots> = take k (insert_desc m (py_sort_reverse fst offers))"
    by (rule take_insert_desc_take)
  also have "\<dots> = take k (py_sort_reverse fst (offers @ [m]))"
    by (simp only: py_sort_reverse_snoc)
  finally show ?case .
qed

lemma dir_size_append:
  "dir_size fs root_dir (xs @ ys) acc =
     (case dir_size fs root_dir xs acc of Inl e \<Rightarrow> Inl e | Inr acc1 \<Rightarrow> dir_size fs root_dir ys acc1)"
proof (induction xs arbitrary: acc)
  case Nil
  then show ?case by simp
next
  case (Cons x xs)
  show ?case
  proof (cases "getsize fs (os_path_join root_dir x)")
    case (Inl e)
    then show ?thesis using Cons.IH [of acc] by (cases e) simp_all
  next
    case (Inr b)
    then show ?thesis using Cons.IH [of "acc + of_nat b / (1024 * 1024)"] by simp
  qed
qed

lemma find_large_files_in_append:
  "find_large_files_in fs root_dir (xs @ ys) K files =
     (case find_large_files_in fs root_dir xs K files of
        Inl e \<Rightarrow> Inl e | Inr files1 \<Rightarrow> find_large_files_in fs root_dir ys K files1)"
proof (induction xs arbitrary: files)
  case Nil
  then show ?case by simp
next
  case (Cons x xs)
  show ?case
  proof (cases "getsize fs (os_path_join root_dir x)")
    case (Inl e)
    then show ?thesis using Cons.IH [of files] by (cases e) simp_all
  next
    case (Inr b)
    then obtain files2 where step: "\<And>names. find_large_files_in fs root_dir (x # names) K files
            = find_large_files_in fs root_dir names K files2"
      using find_large_files_in_cons_ok by blast
    show ?thesis
      using step [of "xs @ ys"] step [of xs] Cons.IH [of files2] by simp
  qed
qed

lemma report_stdout:
  "stdout (report result) =
     Header # map (\<lambda>i. Row (Suc i) (fst (result ! i)) (snd (result ! i))) [0..<length result]"
proof -
  have "map (\<lambda>(i, (m, p)). Row i m p) (enumerate 1 result)
      = map (\<lambda>i. Row (Suc i) (fst (result ! i)) (snd (result ! i))) [0..<length result]"
    by (rule nth_equalityI) (simp_all add: nth_enumerate_eq split_beta)
  then show ?thesis by (simp add: report_def)
qed

subsection \<open>Evaluating the scenarios, and the closed forms of the scans\<close>

lemma scenario_walk:
  "os_walk scenario_fs ''/d'' = [(''/d'', [''sub''], [''a'', ''b'']), (''/d/sub'', [], [''big''])]"
  by (simp add: os_walk_def scenario_fs_def os_path_join_def)

lemma scenario_paths:
  "walk_paths (os_walk scenario_fs ''/d'') = [''/d/a'', ''/d/b'', ''/d/sub/big'']"
  by (simp add: scenario_walk walk_paths_def os_path_join_def)

lemma scenario_stat_ok: "stat_ok scenario_fs (os_walk scenario_fs ''/d'')"
  by (simp add: stat_ok_def scenario_paths) (simp add: scenario_fs_def)

lemma scenario_qualifying:
  "filter (qualifies scenario_fs) (walk_paths (os_walk scenario_fs ''/d'')) = [''/d/a'', ''/d/b'', ''/d/sub/big'']"
  by (simp add: scenario_paths) (simp add: qualifies_def scenario_fs_def)

lemma get_dir_counts_closed:
  "get_dir_counts fs start_dir K = take (nat K) (py_sort_reverse fst (map count_offer (os_walk fs start_dir)))"
  by (simp add: get_dir_counts_def get_dir_counts_loop_closed)

lemma get_dir_sizes_closed:
  "get_dir_sizes fs start_dir K =
     (if stat_ok fs (os_walk fs start_dir)
      then Inr (take (nat K) (py_sort_reverse fst (map (size_offer fs) (os_walk fs start_dir))))
      else Inl OtherOSError)"
  by (simp add: get_dir_sizes_def get_dir_sizes_loop_closed)

lemma length_file_offers:
  "length (file_offers fs entries) = length (filter (qualifies fs) (walk_paths entries))"
  by (simp add: file_offers_def)

lemma length_top: "1 \<le> K \<Longrightarrow> int (length (take (nat K) (py_sort_reverse fst xs))) = min K (int (length xs))"
  by (simp add: length_py_sort_reverse)

text \<open>
  C1. For every \<open>K \<ge> 1\<close> and every tree, the list a scan returns has exactly
  \<open>min (K, number of qualifying measurements)\<close> entries: one measurement per visited
  directory in the count and size modes, one per file of at least 1 MB whose size
  lookup succeeds in the file mode. A scan returns whenever no size lookup fails with
  an error other than a vanished file.
\<close>

theorem result_length:
  assumes "1 \<le> K"
  shows "int (length (get_dir_counts fs start_dir K)) = min K (int (length (os_walk fs start_dir)))
    \<and> (stat_ok fs (os_walk fs start_dir) \<longrightarrow>
         (\<exists>sizes. get_dir_sizes fs start_dir K = Inr sizes) \<and> (\<exists>files. top_files fs start_dir K = Inr files))
    \<and> (\<forall>sizes. get_dir_sizes fs start_dir K = Inr sizes \<longrightarrow>
         int (length sizes) = min K (int (length (os_walk fs start_dir))))
    \<and> (\<forall>files. top_files fs start_dir K = Inr files \<longrightarrow>
         int (length files) = min K (int (length (filter (qualifies fs) (walk_paths (os_walk fs start_dir))))))"
proof (intro conjI allI impI)
  show "int (length (get_dir_counts fs start_dir K)) = min K (int (length (os_walk fs start_dir)))"
    using length_top [OF assms, of "map count_offer (os_walk fs start_dir)"]
    by (simp add: get_dir_counts_closed)
next
  assume "stat_ok fs (os_walk fs start_dir)"
  then show "\<exists>sizes. get_dir_sizes fs start_dir K = Inr sizes"
    by (simp add: get_dir_sizes_closed)
next
  assume "stat_ok fs (os_walk fs start_dir)"
  then show "\<exists>files. top_files fs start_dir K = Inr files"
    by (simp add: top_files_closed)
next
  fix sizes assume "get_dir_sizes fs start_dir K = Inr sizes"
  then have "sizes = take (nat K) (py_sort_reverse fst (map (size_offer fs) (os_walk fs start_dir)))"
    by (simp add: get_dir_sizes_closed split: if_splits)
  then show "int (length sizes) = min K (int (length (os_walk fs start_dir)))"
    using length_top [OF assms, of "map (size_offer fs) (os_walk fs start_dir)"] by simp
next
  fix files assume "top_files fs start_dir K = Inr files"
  then have "files = take (nat K) (py_sort_reverse fst (file_offers fs (os_walk fs start_dir)))"
    by (simp add: top_files_closed split: if_splits)
  then show "int (length files) = min K (int (length (filter (qualifies fs) (walk_paths (os_walk fs start_dir)))))"
    using length_top [OF assms, of "file_offers fs (os_walk fs start_dir)"]
    by (simp add: length_file_offers)
qed

theorem result_length_witness:
  "(1::int) \<le> 5 \<and> stat_ok scenario_fs (os_walk scenario_fs ''/d'')
   \<and> int (length (get_dir_counts scenario_fs ''/d'' 5)) = 2
   \<and> (\<exists>sizes. get_dir_sizes scenario_fs ''/d'' 5 = Inr sizes \<and> int (length sizes) = 2)
   \<and> (\<exists>files. top_files scenario_fs ''/d'' 5 = Inr files \<and> int (length files) = 3)"
proof -
  have k: "(1::int) \<le> 5" by simp
  note t = result_length [OF k, of scenario_fs "''/d''"]
  have n: "length (os_walk scenario_fs ''/d'') = 2"
    by (simp add: scenario_walk)
  have q: "length (filter (qualifies scenario_fs) (walk_paths (os_walk scenario_fs ''/d''))) = 3"
    by (simp add: scenario_qualifying)
  from t scenario_stat_ok obtain sizes files where
    s: "get_dir_sizes scenario_fs ''/d'' 5 = Inr sizes" and f: "top_files scenario_fs ''/d'' 5 = Inr files"
    by blast
  from t s have "int (length sizes) = min 5 (int (length (os_walk scenario_fs ''/d'')))"
    by blast
  moreover from t f have "int (length files) = min 5 (int (length (filter (qualifies scenario_fs) (walk_paths (os_walk scenario_fs ''/d'')))))"
    by blast
  moreover from t have "int (length (get_dir_counts scenario_fs ''/d'' 5)) = min 5 (int (length (os_walk scenario_fs ''/d'')))"
    by blast
  ultimately show ?thesis
    using k scenario_stat_ok s f by (simp add: n q)
qed

subsection \<open>The retained list: invariant, ties, and the selector of the specification\<close>

lemma non_increasing_py_slice_to:
  "non_increasing (py_slice_to (py_sort_reverse fst xs) n)"
  by (simp add: py_slice_to_def non_increasing_take_sort)

lemma length_py_slice_to: "0 \<le> n \<Longrightarrow> int (length (py_slice_to xs n)) \<le> n"
  by (simp add: py_slice_to_def)

lemma length_take_nat: "0 \<le> K \<Longrightarrow> int (length (take (nat K) xs)) \<le> K"
  by simp

text \<open>
  C2. The retained list is ranked and has at most \<open>K\<close> entries at every observation
  point: after any number \<open>i\<close> of iterations of the loops of \<^verbatim>\<open>get_dir_counts\<close>
  and \<^verbatim>\<open>get_dir_sizes\<close>, which is the list the loop returns on the first \<open>i\<close>
  entries of the walk (\<open>get_dir_counts_loop_append\<close>, \<open>get_dir_sizes_loop_append\<close>), and
  on the value \<^verbatim>\<open>get_top_n\<close> returns for any list. \<open>K\<close> is the count of the
  configuration, not negative.
\<close>

theorem retained_list_invariant:
  assumes "0 \<le> K"
  shows "non_increasing (get_dir_counts_loop (take i entries) K [])
    \<and> int (length (get_dir_counts_loop (take i entries) K [])) \<le> K
    \<and> (\<forall>sizes. get_dir_sizes_loop fs (take i entries) K [] = Inr sizes \<longrightarrow>
          non_increasing sizes \<and> int (length sizes) \<le> K)
    \<and> non_increasing (get_top_n files K)
    \<and> int (length (get_top_n files K)) \<le> K"
proof (intro conjI allI impI)
  show "non_increasing (get_dir_counts_loop (take i entries) K [])"
    by (simp only: get_dir_counts_loop_closed non_increasing_take_sort)
  show "int (length (get_dir_counts_loop (take i entries) K [])) \<le> K"
    using assms by (simp only: get_dir_counts_loop_closed length_take_nat)
  show "non_increasing (get_top_n files K)"
    by (simp only: get_top_n_def non_increasing_py_slice_to)
  show "int (length (get_top_n files K)) \<le> K"
    using assms by (simp only: get_top_n_def length_py_slice_to)
next
  fix sizes assume "get_dir_sizes_loop fs (take i entries) K [] = Inr sizes"
  then have s: "sizes = take (nat K) (py_sort_reverse fst (map (size_offer fs) (take i entries)))"
    by (simp add: get_dir_sizes_loop_closed split: if_splits)
  show "non_increasing sizes"
    by (simp only: s non_increasing_take_sort)
  show "int (length sizes) \<le> K"
    using assms by (simp only: s length_take_nat)
qed

theorem retained_list_invariant_witness:
  "(0::int) \<le> 2
   \<and> get_dir_counts_loop (take 3 tie_entries) 2 [] = [(5, ''a''), (5, ''b'')]
   \<and> non_increasing (get_dir_counts_loop (take 3 tie_entries) 2 [])
   \<and> int (length (get_dir_counts_loop (take 3 tie_entries) 2 [])) \<le> 2
   \<and> (\<exists>sizes. get_dir_sizes_loop scenario_fs (take 3 (os_walk scenario_fs ''/d'')) 2 [] = Inr sizes
         \<and> non_increasing sizes \<and> int (length sizes) \<le> 2)
   \<and> non_increasing (get_top_n [(1, ''x''), (3, ''y''), (2, ''z'')] 2)
   \<and> int (length (get_top_n [(1, ''x''), (3, ''y''), (2, ''z'')] 2)) \<le> 2"
proof -
  have k: "(0::int) \<le> 2" by simp
  note t = retained_list_invariant [OF k, of 3 tie_entries scenario_fs "[(1, ''x''), (3, ''y''), (2, ''z'')]"]
  note u = retained_list_invariant [OF k, of 3 "os_walk scenario_fs ''/d''" scenario_fs "[]"]
  have c: "get_dir_counts_loop (take 3 tie_entries) 2 [] = [(5, ''a''), (5, ''b'')]"
    by (simp add: tie_entries_def py_sort_reverse_def py_slice_to_def)
  have "stat_ok scenario_fs (take 3 (os_walk scenario_fs ''/d''))"
    using scenario_stat_ok by (simp add: scenario_walk)
  then obtain sizes where s: "get_dir_sizes_loop scenario_fs (take 3 (os_walk scenario_fs ''/d'')) 2 [] = Inr sizes"
    by (simp add: get_dir_sizes_loop_closed)
  with u have "non_increasing sizes \<and> int (length sizes) \<le> 2"
    by blast
  with s have "\<exists>sizes. get_dir_sizes_loop scenario_fs (take 3 (os_walk scenario_fs ''/d'')) 2 [] = Inr sizes
         \<and> non_increasing sizes \<and> int (length sizes) \<le> 2"
    by blast
  with t c k show ?thesis by blast
qed

lemma prefix_filter_take:
  "prefix (filter P (take k (py_sort_reverse fst xs))) (filter P (py_sort_reverse fst xs))"
  by (rule filter_mono_prefix) (rule take_is_prefix)

lemma prefix_ties:
  "prefix (filter (\<lambda>x. fst x = m) (take k (py_sort_reverse fst xs))) (filter (\<lambda>x. fst x = m) xs)"
  using prefix_filter_take [of "\<lambda>x. fst x = m" k xs] by (simp only: py_sort_reverse_stable)

lemma tie_entries_counts:
  "get_dir_counts_loop tie_entries 2 [] = [(5, ''a''), (5, ''b'')]"
  by (simp add: tie_entries_def py_sort_reverse_def py_slice_to_def)

text \<open>
  C3. Ties are broken by discovery order: in the list a scan returns, the entries of
  any one metric \<open>m\<close> are the first-discovered of the offers of that metric, in
  discovery order, so a later arrival of equal metric never stands before an earlier
  one and is never kept in its place. The directories \<open>a\<close>, \<open>b\<close>, \<open>c\<close> with 5, 5 and 3
  files and \<open>K = 2\<close> give \<open>[(5, a), (5, b)]\<close>.
\<close>

theorem tie_break_discovery_order:
  "prefix (filter (\<lambda>x. fst x = m) (get_dir_counts fs start_dir K))
          (filter (\<lambda>x. fst x = m) (map count_offer (os_walk fs start_dir)))
   \<and> (\<forall>sizes. get_dir_sizes fs start_dir K = Inr sizes \<longrightarrow>
         prefix (filter (\<lambda>x. fst x = mb) sizes)
                (filter (\<lambda>x. fst x = mb) (map (size_offer fs) (os_walk fs start_dir))))
   \<and> (\<forall>files. top_files fs start_dir K = Inr files \<longrightarrow>
         prefix (filter (\<lambda>x. fst x = mb) files)
                (filter (\<lambda>x. fst x = mb) (file_offers fs (os_walk fs start_dir))))
   \<and> map count_offer tie_entries = [(5, ''a''), (5, ''b''), (3, ''c'')]
   \<and> get_dir_counts_loop tie_entries 2 [] = [(5, ''a''), (5, ''b'')]"
proof (intro conjI allI impI)
  show "prefix (filter (\<lambda>x. fst x = m) (get_dir_counts fs start_dir K))
          (filter (\<lambda>x. fst x = m) (map count_offer (os_walk fs start_dir)))"
    by (simp only: get_dir_counts_closed prefix_ties)
  show "map count_offer tie_entries = [(5, ''a''), (5, ''b''), (3, ''c'')]"
    by (simp add: tie_entries_def count_offer_def)
  show "get_dir_counts_loop tie_entries 2 [] = [(5, ''a''), (5, ''b'')]"
    by (rule tie_entries_counts)
next
  fix sizes assume "get_dir_sizes fs start_dir K = Inr sizes"
  then have "sizes = take (nat K) (py_sort_reverse fst (map (size_offer fs) (os_walk fs start_dir)))"
    by (simp add: get_dir_sizes_closed split: if_splits)
  then show "prefix (filter (\<lambda>x. fst x = mb) sizes)
                (filter (\<lambda>x. fst x = mb) (map (size_offer fs) (os_walk fs start_dir)))"
    by (simp only: prefix_ties)
next
  fix files assume "top_files fs start_dir K = Inr files"
  then have "files = take (nat K) (py_sort_reverse fst (file_offers fs (os_walk fs start_dir)))"
    by (simp add: top_files_closed split: if_splits)
  then show "prefix (filter (\<lambda>x. fst x = mb) files)
                (filter (\<lambda>x. fst x = mb) (file_offers fs (os_walk fs start_dir)))"
    by (simp only: prefix_ties)
qed

theorem tie_break_discovery_order_witness:
  "(\<exists>sizes. get_dir_sizes scenario_fs ''/d'' 1 = Inr sizes
      \<and> prefix (filter (\<lambda>x. fst x = 100) sizes)
                (filter (\<lambda>x. fst x = 100) (map (size_offer scenario_fs) (os_walk scenario_fs ''/d''))))
   \<and> (\<exists>files. top_files scenario_fs ''/d'' 1 = Inr files
      \<and> prefix (filter (\<lambda>x. fst x = 100) files)
                (filter (\<lambda>x. fst x = 100) (file_offers scenario_fs (os_walk scenario_fs ''/d''))))"
proof -
  note t = tie_break_discovery_order [of 0 scenario_fs "''/d''" 1 100]
  obtain sizes where s: "get_dir_sizes scenario_fs ''/d'' 1 = Inr sizes"
    using scenario_stat_ok by (simp add: get_dir_sizes_closed)
  obtain files where f: "top_files scenario_fs ''/d'' 1 = Inr files"
    using scenario_stat_ok by (simp add: top_files_closed)
  from t s have "prefix (filter (\<lambda>x. fst x = 100) sizes)
                (filter (\<lambda>x. fst x = 100) (map (size_offer scenario_fs) (os_walk scenario_fs ''/d'')))"
    by blast
  moreover from t f have "prefix (filter (\<lambda>x. fst x = 100) files)
                (filter (\<lambda>x. fst x = 100) (file_offers scenario_fs (os_walk scenario_fs ''/d'')))"
    by blast
  ultimately show ?thesis using s f by blast
qed

lemma realise_count_offers:
  "list_all (\<lambda>x. 0 \<le> fst x) offers \<Longrightarrow>
   map count_offer (map (\<lambda>(n, p). (p, [], replicate (nat n) [])) offers) = offers"
  by (induction offers) (auto simp: count_offer_def)

text \<open>
  C4. For every \<open>K \<ge> 1\<close> the strategy of the scripts (append, sort again, cut to
  \<open>K\<close>) returns the list the compare-and-evict selector of the specification
  returns on the same offers. Every finite sequence of count measurements is the
  sequence of offers of some walk, so this holds for every sequence offered.
\<close>

theorem resort_refines_compare_and_evict:
  assumes "1 \<le> K"
  shows "get_dir_counts_loop entries K [] = spec_result (nat K) (map count_offer entries)
    \<and> (list_all (\<lambda>x. 0 \<le> fst x) offers \<longrightarrow>
         get_dir_counts_loop (map (\<lambda>(n, p). (p, [], replicate (nat n) [])) offers) K []
           = spec_result (nat K) offers)
    \<and> (\<forall>sizes. get_dir_sizes_loop fs entries K [] = Inr sizes \<longrightarrow>
         sizes = spec_result (nat K) (map (size_offer fs) entries))
    \<and> (\<forall>files. top_files fs start_dir K = Inr files \<longrightarrow>
         files = spec_result (nat K) (file_offers fs (os_walk fs start_dir)))"
proof (intro conjI allI impI)
  show "get_dir_counts_loop entries K [] = spec_result (nat K) (map count_offer entries)"
    by (simp only: get_dir_counts_loop_closed spec_result_closed)
next
  assume "list_all (\<lambda>x. 0 \<le> fst x) offers"
  then have "map count_offer (map (\<lambda>(n, p). (p, [], replicate (nat n) [])) offers) = offers"
    by (rule realise_count_offers)
  then show "get_dir_counts_loop (map (\<lambda>(n, p). (p, [], replicate (nat n) [])) offers) K []
           = spec_result (nat K) offers"
    by (simp only: get_dir_counts_loop_closed spec_result_closed)
next
  fix sizes assume "get_dir_sizes_loop fs entries K [] = Inr sizes"
  then show "sizes = spec_result (nat K) (map (size_offer fs) entries)"
    by (simp add: get_dir_sizes_loop_closed spec_result_closed split: if_splits)
next
  fix files assume "top_files fs start_dir K = Inr files"
  then show "files = spec_result (nat K) (file_offers fs (os_walk fs start_dir))"
    by (simp add: top_files_closed spec_result_closed split: if_splits)
qed

theorem resort_refines_compare_and_evict_witness:
  "(1::int) \<le> 2
   \<and> list_all (\<lambda>x. 0 \<le> fst x) [(1::int, ''a''), (2, ''b''), (3, ''c'')]
   \<and> get_dir_counts_loop (map (\<lambda>(n, p). (p, [], replicate (nat n) [])) [(1, ''a''), (2, ''b''), (3, ''c'')]) 2 []
       = [(3, ''c''), (2, ''b'')]
   \<and> spec_result (nat 2) [(1::int, ''a''), (2, ''b''), (3, ''c'')] = [(3, ''c''), (2, ''b'')]
   \<and> spec_result (nat 2) (map count_offer tie_entries) = [(5, ''a''), (5, ''b'')]
   \<and> (\<exists>sizes. get_dir_sizes_loop scenario_fs (os_walk scenario_fs ''/d'') 2 [] = Inr sizes
         \<and> sizes = spec_result (nat 2) (map (size_offer scenario_fs) (os_walk scenario_fs ''/d'')))
   \<and> (\<exists>files. top_files scenario_fs ''/d'' 2 = Inr files
         \<and> files = spec_result (nat 2) (file_offers scenario_fs (os_walk scenario_fs ''/d'')))"
proof -
  have k: "(1::int) \<le> 2" by simp
  have p: "list_all (\<lambda>x. 0 \<le> fst x) [(1::int, ''a''), (2, ''b''), (3, ''c'')]" by simp
  note t = resort_refines_compare_and_evict [OF k, of tie_entries "[(1, ''a''), (2, ''b''), (3, ''c'')]" scenario_fs "''/d''"]
  note u = resort_refines_compare_and_evict [OF k, of "os_walk scenario_fs ''/d''" "[]" scenario_fs "''/d''"]
  have e: "spec_result (nat 2) [(1::int, ''a''), (2, ''b''), (3, ''c'')] = [(3, ''c''), (2, ''b'')]"
    by (simp add: spec_result_def spec_offer_def)
  from t p have a: "get_dir_counts_loop (map (\<lambda>(n, p). (p, [], replicate (nat n) [])) [(1, ''a''), (2, ''b''), (3, ''c'')]) 2 []
       = spec_result (nat 2) [(1, ''a''), (2, ''b''), (3, ''c'')]"
    by blast
  from t have b: "spec_result (nat 2) (map count_offer tie_entries) = [(5, ''a''), (5, ''b'')]"
    by (simp add: tie_entries_counts)
  obtain sizes where s: "get_dir_sizes_loop scenario_fs (os_walk scenario_fs ''/d'') 2 [] = Inr sizes"
    using scenario_stat_ok by (simp add: get_dir_sizes_loop_closed)
  obtain files where f: "top_files scenario_fs ''/d'' 2 = Inr files"
    using scenario_stat_ok by (simp add: top_files_closed)
  from u s have s': "sizes = spec_result (nat 2) (map (size_offer scenario_fs) (os_walk scenario_fs ''/d''))"
    by blast
  from u f have f': "files = spec_result (nat 2) (file_offers scenario_fs (os_walk scenario_fs ''/d''))"
    by blast
  from k p a b e s s' f f' show ?thesis by (simp only:) blast
qed

subsection \<open>The metric of the size mode\<close>

lemma dir_size_all_found:
  "list_all (\<lambda>name. getsize fs (os_path_join root_dir name) = Inr (bytes name)) names \<Longrightarrow>
   dir_size fs root_dir names acc = Inr (acc + (\<Sum>name\<leftarrow>names. of_nat (bytes name) / (1024 * 1024)))"
  by (induction names arbitrary: acc) (simp_all add: add.assoc)

lemma scenario_sizes:
  "get_dir_sizes scenario_fs ''/d'' 2 = Inr [(100, ''/d/sub''), (5, ''/d'')]"
  by (simp add: get_dir_sizes_def scenario_walk)
     (simp add: scenario_fs_def os_path_join_def py_sort_reverse_def py_slice_to_def)

text \<open>
  C5. In the size mode the metric of a directory is the sum of the sizes of the files
  directly inside it, each divided by \<open>1024 * 1024\<close>: the inner loop adds exactly
  the names listed for the directory, the scan offers exactly one measurement per entry
  of the walk, and the entry of a directory lists its own files, whatever its
  subdirectories hold. For \<^verbatim>\<open>/d\<close> with files of 2 MB and 3 MB and a file of 100 MB in
  \<^verbatim>\<open>/d/sub\<close> the metric is 5.
\<close>

theorem direct_size_metric:
  "(list_all (\<lambda>name. getsize fs (os_path_join root_dir name) = Inr (bytes name)) names \<longrightarrow>
      dir_size fs root_dir names 0 = Inr (\<Sum>name\<leftarrow>names. of_nat (bytes name) / (1024 * 1024)))
   \<and> (stat_ok fs (os_walk fs start_dir) \<longrightarrow>
        get_dir_sizes fs start_dir K =
          Inr (take (nat K) (py_sort_reverse fst
                 (map (\<lambda>(root_dir, dirs, names). (direct_size fs root_dir names, root_dir))
                      (os_walk fs start_dir)))))
   \<and> hd (walk_dir top_path (Dir subs files)) = (top_path, map fst subs, files)
   \<and> size_offer fs (hd (walk_dir top_path (Dir subs files))) = (direct_size fs top_path files, top_path)
   \<and> dir_size scenario_fs ''/d'' [''a'', ''b''] 0 = Inr 5
   \<and> get_dir_sizes scenario_fs ''/d'' 2 = Inr [(100, ''/d/sub''), (5, ''/d'')]"
proof (intro conjI impI)
  assume "list_all (\<lambda>name. getsize fs (os_path_join root_dir name) = Inr (bytes name)) names"
  then show "dir_size fs root_dir names 0 = Inr (\<Sum>name\<leftarrow>names. of_nat (bytes name) / (1024 * 1024))"
    using dir_size_all_found [of fs root_dir bytes names 0] by simp
next
  have "size_offer fs = (\<lambda>(root_dir, dirs, names). (direct_size fs root_dir names, root_dir))"
    by (rule ext) (simp add: size_offer_def)
  moreover assume "stat_ok fs (os_walk fs start_dir)"
  ultimately show "get_dir_sizes fs start_dir K =
          Inr (take (nat K) (py_sort_reverse fst
                 (map (\<lambda>(root_dir, dirs, names). (direct_size fs root_dir names, root_dir))
                      (os_walk fs start_dir))))"
    by (simp add: get_dir_sizes_closed)
next
  show "hd (walk_dir top_path (Dir subs files)) = (top_path, map fst subs, files)"
    by simp
  show "size_offer fs (hd (walk_dir top_path (Dir subs files))) = (direct_size fs top_path files, top_path)"
    by (simp add: size_offer_def)
  show "dir_size scenario_fs ''/d'' [''a'', ''b''] 0 = Inr 5"
    by (simp add: scenario_fs_def os_path_join_def)
  show "get_dir_sizes scenario_fs ''/d'' 2 = Inr [(100, ''/d/sub''), (5, ''/d'')]"
    by (rule scenario_sizes)
qed

theorem direct_size_metric_witness:
  "list_all (\<lambda>name. getsize scenario_fs (os_path_join ''/d'' name)
               = Inr (if name = ''a'' then 2097152 else 3145728)) [''a'', ''b'']
   \<and> dir_size scenario_fs ''/d'' [''a'', ''b''] 0 = Inr (2097152 / (1024 * 1024) + 3145728 / (1024 * 1024))
   \<and> stat_ok scenario_fs (os_walk scenario_fs ''/d'')
   \<and> get_dir_sizes scenario_fs ''/d'' 1 = Inr [(100, ''/d/sub'')]"
proof -
  note t = direct_size_metric [of scenario_fs "''/d''" "\<lambda>name. if name = ''a'' then 2097152 else 3145728"
     "[''a'', ''b'']" "''/d''" 1]
  have a: "list_all (\<lambda>name. getsize scenario_fs (os_path_join ''/d'' name)
               = Inr (if name = ''a'' then 2097152 else 3145728)) [''a'', ''b'']"
    by (simp add: scenario_fs_def os_path_join_def)
  with t have "dir_size scenario_fs ''/d'' [''a'', ''b''] 0
      = Inr (\<Sum>name\<leftarrow>[''a'', ''b'']. of_nat (if name = ''a'' then 2097152 else 3145728) / (1024 * 1024))"
    by blast
  then have b: "dir_size scenario_fs ''/d'' [''a'', ''b''] 0 = Inr (2097152 / (1024 * 1024) + 3145728 / (1024 * 1024))"
    by simp
  from t scenario_stat_ok have "get_dir_sizes scenario_fs ''/d'' 1 =
          Inr (take (nat 1) (py_sort_reverse fst
                 (map (\<lambda>(root_dir, dirs, names). (direct_size scenario_fs root_dir names, root_dir))
                      (os_walk scenario_fs ''/d''))))"
    by blast
  then have c: "get_dir_sizes scenario_fs ''/d'' 1 = Inr [(100, ''/d/sub'')]"
    by (simp add: scenario_walk direct_size_def file_mb_def os_path_join_def py_sort_reverse_def)
       (simp add: scenario_fs_def)
  from a b c scenario_stat_ok show ?thesis by blast
qed

subsection \<open>The floor of the file mode\<close>

lemma find_large_files_in_single:
  assumes "getsize fs (os_path_join root_dir name) = Inr b"
  shows "find_large_files_in fs root_dir [name] K files =
     Inr (let files1 = (if 1048576 \<le> b then files @ [(of_nat b / (1024 * 1024), os_path_join root_dir name)] else files)
          in if int (length files1) \<ge> K then py_slice_to (py_sort_reverse fst files1) K else files1)"
proof -
  have "find_large_files_in fs root_dir [name] K files =
     Inr (let files1 = (if of_nat b / (1024 * 1024) \<ge> MIN_FILE_SIZE
                        then files @ [(of_nat b / (1024 * 1024), os_path_join root_dir name)] else files)
          in if int (length files1) \<ge> K then py_slice_to (py_sort_reverse fst files1) K else files1)"
    by (simp only: find_large_files_in.simps Let_def assms sum.case)
  then show ?thesis
    by (simp only: min_file_size_bytes)
qed

lemma set_sort_and_cut:
  "set (let files1 = xs in if int (length files1) \<ge> K
                          then py_slice_to (py_sort_reverse fst files1) K else files1) \<subseteq> set xs"
  using set_py_slice_to [of "py_sort_reverse fst xs" K]
  by (simp add: Let_def set_py_sort_reverse)

lemma find_large_files_in_subset:
  "find_large_files_in fs root_dir names K files = Inr files' \<Longrightarrow>
   set files' \<subseteq> set files \<union>
     set (map (\<lambda>p. (file_mb fs p, p)) (filter (qualifies fs) (map (os_path_join root_dir) names)))"
proof (induction names arbitrary: files)
  case Nil
  then show ?case by simp
next
  case (Cons name names)
  define p where "p = os_path_join root_dir name"
  define rest where "rest = set (map (\<lambda>p. (file_mb fs p, p)) (filter (qualifies fs) (map (os_path_join root_dir) names)))"
  show ?case
  proof (cases "getsize fs p")
    case (Inl e)
    with Cons.prems have e: "e = FileNotFoundError"
      by (cases e) (simp_all add: p_def)
    have "find_large_files_in fs root_dir names K files = Inr files'"
      using Cons.prems Inl e by (simp add: p_def)
    then have "set files' \<subseteq> set files \<union> rest"
      unfolding rest_def by (rule Cons.IH)
    then show ?thesis by (auto simp: rest_def)
  next
    case (Inr b)
    from find_large_files_in_cons_ok [OF Inr [unfolded p_def]]
    obtain files2 where step: "\<And>names. find_large_files_in fs root_dir (name # names) K files
            = find_large_files_in fs root_dir names K files2"
      by blast
    have "find_large_files_in fs root_dir [name] K files = Inr files2"
      using step [of "[]"] by simp
    then have f2: "files2 = (let files1 = (if 1048576 \<le> b then files @ [(of_nat b / (1024 * 1024), p)] else files)
          in if int (length files1) \<ge> K then py_slice_to (py_sort_reverse fst files1) K else files1)"
      using find_large_files_in_single [OF Inr [unfolded p_def], of K files] by (simp add: p_def)
    have sub2: "set files2 \<subseteq> set files \<union> (if qualifies fs p then {(file_mb fs p, p)} else {})"
    proof (cases "1048576 \<le> b")
      case True
      then have "set files2 \<subseteq> set (files @ [(of_nat b / (1024 * 1024), p)])"
        unfolding f2 using set_sort_and_cut [of "files @ [(of_nat b / (1024 * 1024), p)]" K] by simp
      moreover have "qualifies fs p" and "file_mb fs p = of_nat b / (1024 * 1024)"
        using True Inr by (simp_all add: qualifies_def file_mb_def)
      ultimately show ?thesis by auto
    next
      case False
      then have "set files2 \<subseteq> set files"
        unfolding f2 using set_sort_and_cut [of files K] by simp
      then show ?thesis by auto
    qed
    have "find_large_files_in fs root_dir names K files2 = Inr files'"
      using Cons.prems step [of names] by simp
    then have "set files' \<subseteq> set files2 \<union> rest"
      unfolding rest_def by (rule Cons.IH)
    with sub2 show ?thesis by (auto simp: rest_def p_def split: if_splits)
  qed
qed

lemma find_large_files_loop_subset:
  "find_large_files_loop fs entries K files = Inr files' \<Longrightarrow>
   set files' \<subseteq> set files \<union> set (file_offers fs entries)"
proof (induction entries arbitrary: files)
  case Nil
  then show ?case by simp
next
  case (Cons e entries)
  obtain root_dir dirs names where e: "e = (root_dir, dirs, names)"
    by (cases e)
  from Cons.prems obtain files1 where
    f1: "find_large_files_in fs root_dir names K files = Inr files1" and
    f2: "find_large_files_loop fs entries K files1 = Inr files'"
    by (auto simp: e split: sum.splits)
  from f1 have "set files1 \<subseteq> set files \<union>
     set (map (\<lambda>p. (file_mb fs p, p)) (filter (qualifies fs) (map (os_path_join root_dir) names)))"
    by (rule find_large_files_in_subset)
  moreover from f2 have "set files' \<subseteq> set files1 \<union> set (file_offers fs entries)"
    by (rule Cons.IH)
  ultimately show ?case
    by (auto simp: e file_offers_Cons)
qed

lemma file_offers_floor:
  assumes "(m, p) \<in> set (file_offers fs entries)"
  shows "(\<exists>b. getsize fs p = Inr b \<and> 1048576 \<le> b \<and> m = of_nat b / (1024 * 1024)) \<and> 1 \<le> m"
proof -
  from assms have q: "qualifies fs p" and m: "m = file_mb fs p"
    by (auto simp: file_offers_def)
  from q obtain b where b: "getsize fs p = Inr b" "1048576 \<le> b"
    by (auto simp: qualifies_def split: sum.splits)
  then have "MIN_FILE_SIZE \<le> of_nat b / (1024 * 1024)"
    using min_file_size_bytes [of b] by blast
  then have "1 \<le> m"
    using m b by (simp add: file_mb_def MIN_FILE_SIZE_def)
  moreover have "m = of_nat b / (1024 * 1024)"
    using m b by (simp add: file_mb_def)
  ultimately show ?thesis using b by blast
qed

lemma racy_walk:
  "os_walk racy_fs ''/r'' = [(''/r'', [], [''small'', ''gone'', ''exact'', ''large''])]"
  by (simp add: os_walk_def racy_fs_def)

lemma racy_top_files:
  "top_files racy_fs ''/r'' 5 = Inr [(5, ''/r/large''), (1, ''/r/exact'')]"
  by (simp add: top_files_def find_large_files_def racy_walk)
     (simp add: racy_fs_def os_path_join_def get_top_n_def py_sort_reverse_def py_slice_to_def MIN_FILE_SIZE_def)

text \<open>
  C6. In the file mode a file of fewer than 1048576 bytes is never a measurement:
  every entry of the list \<^verbatim>\<open>find_large_files\<close> returns, and of the list the scan
  returns after \<^verbatim>\<open>get_top_n\<close>, is a file whose size lookup gave at least 1048576
  bytes, with that size in megabytes as its metric, for every tree and every \<open>K\<close>; a
  smaller file leaves the list with nothing new in it. A file of exactly 1048576 bytes
  is appended with metric 1. The floor is the constant \<open>MIN_FILE_SIZE\<close>; the functions
  take no argument for it.
\<close>

theorem file_size_floor:
  "(\<forall>files m p. find_large_files fs start_dir K = Inr files \<and> (m, p) \<in> set files \<longrightarrow>
       (\<exists>b. getsize fs p = Inr b \<and> 1048576 \<le> b \<and> m = of_nat b / (1024 * 1024)) \<and> 1 \<le> m)
   \<and> (\<forall>files m p. top_files fs start_dir K = Inr files \<and> (m, p) \<in> set files \<longrightarrow>
       (\<exists>b. getsize fs p = Inr b \<and> 1048576 \<le> b \<and> m = of_nat b / (1024 * 1024)) \<and> 1 \<le> m)
   \<and> (\<forall>b. getsize fs (os_path_join root_dir name) = Inr b \<and> b < 1048576 \<longrightarrow>
       (\<exists>kept. find_large_files_in fs root_dir [name] K found = Inr kept \<and> set kept \<subseteq> set found))
   \<and> (1 \<le> K \<and> getsize fs (os_path_join root_dir name) = Inr 1048576 \<longrightarrow>
       find_large_files_in fs root_dir [name] K [] = Inr [(1, os_path_join root_dir name)])
   \<and> MIN_FILE_SIZE = 1
   \<and> top_files racy_fs ''/r'' 5 = Inr [(5, ''/r/large''), (1, ''/r/exact'')]"
proof (intro conjI allI)
  fix files m p
  show "find_large_files fs start_dir K = Inr files \<and> (m, p) \<in> set files \<longrightarrow>
       (\<exists>b. getsize fs p = Inr b \<and> 1048576 \<le> b \<and> m = of_nat b / (1024 * 1024)) \<and> 1 \<le> m"
  proof
    assume "find_large_files fs start_dir K = Inr files \<and> (m, p) \<in> set files"
    then have "(m, p) \<in> set (file_offers fs (os_walk fs start_dir))"
      using find_large_files_loop_subset [of fs "os_walk fs start_dir" K "[]" files]
      by (auto simp: find_large_files_def)
    then show "(\<exists>b. getsize fs p = Inr b \<and> 1048576 \<le> b \<and> m = of_nat b / (1024 * 1024)) \<and> 1 \<le> m"
      by (rule file_offers_floor)
  qed
next
  fix files m p
  show "top_files fs start_dir K = Inr files \<and> (m, p) \<in> set files \<longrightarrow>
       (\<exists>b. getsize fs p = Inr b \<and> 1048576 \<le> b \<and> m = of_nat b / (1024 * 1024)) \<and> 1 \<le> m"
  proof
    assume a: "top_files fs start_dir K = Inr files \<and> (m, p) \<in> set files"
    then have "files = take (nat K) (py_sort_reverse fst (file_offers fs (os_walk fs start_dir)))"
      by (simp add: top_files_closed split: if_splits)
    with a have "(m, p) \<in> set (py_sort_reverse fst (file_offers fs (os_walk fs start_dir)))"
      by (auto dest: in_set_takeD)
    then have "(m, p) \<in> set (file_offers fs (os_walk fs start_dir))"
      by (simp only: set_py_sort_reverse)
    then show "(\<exists>b. getsize fs p = Inr b \<and> 1048576 \<le> b \<and> m = of_nat b / (1024 * 1024)) \<and> 1 \<le> m"
      by (rule file_offers_floor)
  qed
next
  fix b
  show "getsize fs (os_path_join root_dir name) = Inr b \<and> b < 1048576 \<longrightarrow>
       (\<exists>kept. find_large_files_in fs root_dir [name] K found = Inr kept \<and> set kept \<subseteq> set found)"
  proof
    assume a: "getsize fs (os_path_join root_dir name) = Inr b \<and> b < 1048576"
    then have g: "getsize fs (os_path_join root_dir name) = Inr b" and small: "\<not> 1048576 \<le> b"
      by simp_all
    have "(if 1048576 \<le> b then found @ [(of_nat b / (1024 * 1024), os_path_join root_dir name)] else found) = found"
      using small by simp
    then have r: "find_large_files_in fs root_dir [name] K found =
        Inr (let files1 = found in if int (length files1) \<ge> K
                                  then py_slice_to (py_sort_reverse fst files1) K else files1)"
      by (simp only: find_large_files_in_single [OF g])
    show "\<exists>kept. find_large_files_in fs root_dir [name] K found = Inr kept \<and> set kept \<subseteq> set found"
      unfolding r using set_sort_and_cut [of found K] by blast
  qed
next
  show "1 \<le> K \<and> getsize fs (os_path_join root_dir name) = Inr 1048576 \<longrightarrow>
       find_large_files_in fs root_dir [name] K [] = Inr [(1, os_path_join root_dir name)]"
  proof
    assume a: "1 \<le> K \<and> getsize fs (os_path_join root_dir name) = Inr 1048576"
    then have g: "getsize fs (os_path_join root_dir name) = Inr 1048576" and k: "1 \<le> K"
      by simp_all
    have "(let files1 = (if (1048576::nat) \<le> 1048576
                         then [] @ [(of_nat 1048576 / (1024 * 1024), os_path_join root_dir name)] else [])
           in if int (length files1) \<ge> K then py_slice_to (py_sort_reverse fst files1) K else files1)
          = [(1::rat, os_path_join root_dir name)]"
      using k by (simp add: Let_def py_sort_reverse_def py_slice_to_def)
    then show "find_large_files_in fs root_dir [name] K [] = Inr [(1, os_path_join root_dir name)]"
      by (simp only: find_large_files_in_single [OF g])
  qed
next
  show "MIN_FILE_SIZE = 1"
    by (rule MIN_FILE_SIZE_def)
  show "top_files racy_fs ''/r'' 5 = Inr [(5, ''/r/large''), (1, ''/r/exact'')]"
    by (rule racy_top_files)
qed

theorem file_size_floor_witness:
  "getsize racy_fs (os_path_join ''/r'' ''small'') = Inr 943718 \<and> (943718::nat) < 1048576
   \<and> (\<exists>kept. find_large_files_in racy_fs ''/r'' [''small''] 5 [] = Inr kept \<and> set kept = {})
   \<and> (1::int) \<le> 5 \<and> getsize racy_fs (os_path_join ''/r'' ''exact'') = Inr 1048576
   \<and> find_large_files_in racy_fs ''/r'' [''exact''] 5 [] = Inr [(1, ''/r/exact'')]
   \<and> (\<exists>files. find_large_files racy_fs ''/r'' 5 = Inr files \<and> (1, ''/r/exact'') \<in> set files)
   \<and> (\<exists>files. top_files racy_fs ''/r'' 5 = Inr files \<and> (5, ''/r/large'') \<in> set files)
   \<and> (\<exists>b. getsize racy_fs ''/r/exact'' = Inr b \<and> 1048576 \<le> b \<and> (1::rat) = of_nat b / (1024 * 1024))
   \<and> (\<exists>b. getsize racy_fs ''/r/large'' = Inr b \<and> 1048576 \<le> b \<and> (5::rat) = of_nat b / (1024 * 1024))"
proof -
  note s = file_size_floor [of racy_fs "''/r''" 5 "''/r''" "''small''" "[]"]
  note e = file_size_floor [of racy_fs "''/r''" 5 "''/r''" "''exact''" "[]"]
  have gs: "getsize racy_fs (os_path_join ''/r'' ''small'') = Inr 943718"
    by (simp add: racy_fs_def os_path_join_def)
  have ge: "getsize racy_fs (os_path_join ''/r'' ''exact'') = Inr 1048576"
    by (simp add: racy_fs_def os_path_join_def)
  have j: "os_path_join ''/r'' ''exact'' = ''/r/exact''"
    by (simp add: os_path_join_def)
  from s gs have a: "\<exists>kept. find_large_files_in racy_fs ''/r'' [''small''] 5 [] = Inr kept \<and> set kept = {}"
    by fastforce
  from e ge have b: "find_large_files_in racy_fs ''/r'' [''exact''] 5 [] = Inr [(1, ''/r/exact'')]"
    by (simp add: j)
  have f: "find_large_files racy_fs ''/r'' 5 = Inr [(1, ''/r/exact''), (5, ''/r/large'')]"
    by (simp add: find_large_files_def racy_walk)
       (simp add: racy_fs_def os_path_join_def py_sort_reverse_def py_slice_to_def MIN_FILE_SIZE_def)
  then have c: "\<exists>files. find_large_files racy_fs ''/r'' 5 = Inr files \<and> (1, ''/r/exact'') \<in> set files"
    by simp
  with e have d: "\<exists>b. getsize racy_fs ''/r/exact'' = Inr b \<and> 1048576 \<le> b \<and> (1::rat) = of_nat b / (1024 * 1024)"
    by blast
  have c': "\<exists>files. top_files racy_fs ''/r'' 5 = Inr files \<and> (5, ''/r/large'') \<in> set files"
    by (simp add: racy_top_files)
  with e have d': "\<exists>b. getsize racy_fs ''/r/large'' = Inr b \<and> 1048576 \<le> b \<and> (5::rat) = of_nat b / (1024 * 1024)"
    by blast
  from gs ge a b c d c' d' show ?thesis by simp
qed

subsection \<open>Files that vanish between listing and lookup\<close>

lemma dir_size_skip:
  assumes "getsize fs (os_path_join root_dir name) = Inl FileNotFoundError"
  shows "dir_size fs root_dir (before @ name # after) acc = dir_size fs root_dir (before @ after) acc"
proof -
  have "dir_size fs root_dir (name # after) acc1 = dir_size fs root_dir after acc1" for acc1
    using assms by simp
  then show ?thesis
    by (simp only: dir_size_append)
qed

lemma find_large_files_in_skip:
  assumes "getsize fs (os_path_join root_dir name) = Inl FileNotFoundError"
  shows "find_large_files_in fs root_dir (before @ name # after) K files
       = find_large_files_in fs root_dir (before @ after) K files"
  by (simp only: find_large_files_in_append find_large_files_in_cons_gone [OF assms])

lemma find_large_files_loop_append:
  "find_large_files_loop fs (xs @ ys) K files =
     (case find_large_files_loop fs xs K files of
        Inl e \<Rightarrow> Inl e | Inr files1 \<Rightarrow> find_large_files_loop fs ys K files1)"
  by (induction fs xs K files rule: find_large_files_loop.induct) (simp_all split: sum.splits)

lemma racy_stat_ok: "stat_ok racy_fs (os_walk racy_fs ''/r'')"
  by (simp add: stat_ok_def racy_walk walk_paths_def os_path_join_def) (simp add: racy_fs_def)

text \<open>
  C8. In the size and file modes a file whose size lookup raises
  \<^verbatim>\<open>FileNotFoundError\<close> is skipped silently: the loop over the names of its directory,
  and with it the whole scan, gives what it gives when the name is not listed at all, so
  the file adds nothing and the names and directories after it are processed. A scan
  whose lookups fail in no other way runs to completion.
\<close>

theorem vanished_file_skipped:
  assumes "getsize fs (os_path_join root_dir name) = Inl FileNotFoundError"
  shows "dir_size fs root_dir (before @ name # after) acc = dir_size fs root_dir (before @ after) acc
    \<and> find_large_files_in fs root_dir (before @ name # after) K files
        = find_large_files_in fs root_dir (before @ after) K files
    \<and> get_dir_sizes_loop fs (pre @ (root_dir, dirs, before @ name # after) # post) K sizes
        = get_dir_sizes_loop fs (pre @ (root_dir, dirs, before @ after) # post) K sizes
    \<and> find_large_files_loop fs (pre @ (root_dir, dirs, before @ name # after) # post) K files
        = find_large_files_loop fs (pre @ (root_dir, dirs, before @ after) # post) K files
    \<and> (stat_ok fs (os_walk fs start_dir) \<longrightarrow>
         (\<exists>result. get_dir_sizes fs start_dir K = Inr result)
         \<and> (\<exists>result. find_large_files fs start_dir K = Inr result))"
proof (intro conjI impI)
  show d: "dir_size fs root_dir (before @ name # after) acc = dir_size fs root_dir (before @ after) acc"
    using assms by (rule dir_size_skip)
  show f: "find_large_files_in fs root_dir (before @ name # after) K files
        = find_large_files_in fs root_dir (before @ after) K files"
    using assms by (rule find_large_files_in_skip)
  have "dir_size fs root_dir (before @ name # after) 0 = dir_size fs root_dir (before @ after) 0"
    using assms by (rule dir_size_skip)
  then have "get_dir_sizes_loop fs ((root_dir, dirs, before @ name # after) # post) K sizes1
        = get_dir_sizes_loop fs ((root_dir, dirs, before @ after) # post) K sizes1" for sizes1
    by simp
  then show "get_dir_sizes_loop fs (pre @ (root_dir, dirs, before @ name # after) # post) K sizes
        = get_dir_sizes_loop fs (pre @ (root_dir, dirs, before @ after) # post) K sizes"
    by (simp only: get_dir_sizes_loop_append cong: sum.case_cong)
  have "find_large_files_in fs root_dir (before @ name # after) K files1
        = find_large_files_in fs root_dir (before @ after) K files1" for files1
    using assms by (rule find_large_files_in_skip)
  then have "find_large_files_loop fs ((root_dir, dirs, before @ name # after) # post) K files1
        = find_large_files_loop fs ((root_dir, dirs, before @ after) # post) K files1" for files1
    by simp
  then show "find_large_files_loop fs (pre @ (root_dir, dirs, before @ name # after) # post) K files
        = find_large_files_loop fs (pre @ (root_dir, dirs, before @ after) # post) K files"
    by (simp only: find_large_files_loop_append cong: sum.case_cong)
next
  assume "stat_ok fs (os_walk fs start_dir)"
  then show "\<exists>result. get_dir_sizes fs start_dir K = Inr result"
    by (simp add: get_dir_sizes_closed)
next
  assume "stat_ok fs (os_walk fs start_dir)"
  then show "\<exists>result. find_large_files fs start_dir K = Inr result"
    unfolding find_large_files_def by (rule find_large_files_loop_returns)
qed

theorem vanished_file_skipped_witness:
  "getsize racy_fs (os_path_join ''/r'' ''gone'') = Inl FileNotFoundError
   \<and> dir_size racy_fs ''/r'' [''small'', ''gone'', ''exact'', ''large''] 0
       = dir_size racy_fs ''/r'' [''small'', ''exact'', ''large''] 0
   \<and> get_dir_sizes_loop racy_fs [(''/r'', [], [''small'', ''gone'', ''exact'', ''large''])] 1 []
       = get_dir_sizes_loop racy_fs [(''/r'', [], [''small'', ''exact'', ''large''])] 1 []
   \<and> find_large_files_loop racy_fs [(''/r'', [], [''small'', ''gone'', ''exact'', ''large''])] 1 []
       = find_large_files_loop racy_fs [(''/r'', [], [''small'', ''exact'', ''large''])] 1 []
   \<and> stat_ok racy_fs (os_walk racy_fs ''/r'')
   \<and> (\<exists>result. get_dir_sizes racy_fs ''/r'' 1 = Inr result)
   \<and> (\<exists>result. find_large_files racy_fs ''/r'' 1 = Inr result)"
proof -
  have g: "getsize racy_fs (os_path_join ''/r'' ''gone'') = Inl FileNotFoundError"
    by (simp add: racy_fs_def os_path_join_def)
  note t = vanished_file_skipped [OF g, of "[''small'']" "[''exact'', ''large'']" 0 1 "[]" "[]" "[]" "[]" "[]" "''/r''"]
  from t have "dir_size racy_fs ''/r'' ([''small''] @ ''gone'' # [''exact'', ''large'']) 0
       = dir_size racy_fs ''/r'' ([''small''] @ [''exact'', ''large'']) 0"
    by blast
  then have a: "dir_size racy_fs ''/r'' [''small'', ''gone'', ''exact'', ''large''] 0
       = dir_size racy_fs ''/r'' [''small'', ''exact'', ''large''] 0"
    by (simp only: append.simps)
  from t have "get_dir_sizes_loop racy_fs ([] @ (''/r'', [], [''small''] @ ''gone'' # [''exact'', ''large'']) # []) 1 []
       = get_dir_sizes_loop racy_fs ([] @ (''/r'', [], [''small''] @ [''exact'', ''large'']) # []) 1 []"
    by blast
  then have b: "get_dir_sizes_loop racy_fs [(''/r'', [], [''small'', ''gone'', ''exact'', ''large''])] 1 []
       = get_dir_sizes_loop racy_fs [(''/r'', [], [''small'', ''exact'', ''large''])] 1 []"
    by (simp only: append.simps)
  from t have "find_large_files_loop racy_fs ([] @ (''/r'', [], [''small''] @ ''gone'' # [''exact'', ''large'']) # []) 1 []
       = find_large_files_loop racy_fs ([] @ (''/r'', [], [''small''] @ [''exact'', ''large'']) # []) 1 []"
    by blast
  then have c: "find_large_files_loop racy_fs [(''/r'', [], [''small'', ''gone'', ''exact'', ''large''])] 1 []
       = find_large_files_loop racy_fs [(''/r'', [], [''small'', ''exact'', ''large''])] 1 []"
    by (simp only: append.simps)
  from t racy_stat_ok have d: "(\<exists>result. get_dir_sizes racy_fs ''/r'' 1 = Inr result)
         \<and> (\<exists>result. find_large_files racy_fs ''/r'' 1 = Inr result)"
    by blast
  from g a b c d racy_stat_ok show ?thesis by blast
qed

subsection \<open>The main programs: exit behaviour and invalid configurations\<close>

lemma report_rows_eq:
  "report result =
     \<lparr>stdout = Header # map (\<lambda>i. Row (Suc i) (fst (result ! i)) (snd (result ! i))) [0..<length result],
      stderr = [], exit_status = 0\<rparr>"
  using report_stdout [of result] by (simp add: report_def)

lemma report_Nil: "report [] = \<lparr>stdout = [Header], stderr = [], exit_status = 0\<rparr>"
  by (simp add: report_def enumerate_simps)

lemma os_walk_missing: "dir_at fs start_dir = None \<Longrightarrow> os_walk fs start_dir = []"
  by (simp add: os_walk_def)

lemma find_large_files_nonpos:
  assumes "K \<le> 0"
  shows "find_large_files fs start_dir K =
     (if stat_ok fs (os_walk fs start_dir) then Inr [] else Inl OtherOSError)"
proof (cases "stat_ok fs (os_walk fs start_dir)")
  case True
  then obtain files where f: "find_large_files_loop fs (os_walk fs start_dir) K [] = Inr files"
    using find_large_files_loop_returns by blast
  with assms have "files = []"
    by (rule find_large_files_loop_neg)
  with f True show ?thesis by (simp add: find_large_files_def)
next
  case False
  then show ?thesis by (simp add: find_large_files_def find_large_files_loop_raises)
qed

lemma scenario_int_examples:
  "scenario_int ''5'' = Some 5" "scenario_int ''2'' = Some 2" "scenario_int ''0'' = Some 0"
  "scenario_int ''-3'' = Some (- 3)" "scenario_int ''abc'' = None" "scenario_int ''many'' = None"
  by (simp_all add: scenario_int_def)

lemma locked_walk: "os_walk locked_fs ''/l'' = [(''/l'', [], [''secret''])]"
  by (simp add: os_walk_def locked_fs_def)

lemma locked_sizes: "get_dir_sizes locked_fs ''/l'' K = Inl OtherOSError"
  by (simp add: get_dir_sizes_def locked_walk) (simp add: locked_fs_def)

lemma locked_files: "find_large_files locked_fs ''/l'' K = Inl OtherOSError"
  by (simp add: find_large_files_def locked_walk) (simp add: locked_fs_def)

text \<open>
  C10, as stated, fails: it speaks of every tree, and on a tree with a file whose size
  lookup raises another \<^verbatim>\<open>OSError\<close> the size and file scans raise that error for
  \<open>K = -3\<close> and \<open>K = 0\<close> as for any \<open>K\<close>, since the lookup runs before the cut; the
  size tool ends with a traceback and exit status 1.
\<close>

theorem nonpositive_K_counterexample:
  "get_dir_sizes locked_fs ''/l'' (- 3) = Inl OtherOSError
   \<and> find_large_files locked_fs ''/l'' 0 = Inl OtherOSError
   \<and> scenario_int ''-3'' = Some (- 3)
   \<and> main_topdirs scenario_int locked_fs [''topdirs'', ''-3'', ''/l'']
        = \<lparr>stdout = [Header], stderr = [Traceback (OSError OtherOSError)], exit_status = 1\<rparr>"
  by (simp add: locked_sizes locked_files scenario_int_examples main_topdirs_def crashed_def)

text \<open>
  C10, amended. For every \<open>K \<le> 0\<close> and every tree \<^verbatim>\<open>get_dir_counts\<close> returns the
  empty list, and \<^verbatim>\<open>get_dir_sizes\<close> and \<^verbatim>\<open>find_large_files\<close> with \<^verbatim>\<open>get_top_n\<close>
  return the empty list when no size lookup raises an error other than
  \<^verbatim>\<open>FileNotFoundError\<close>: a cut \<^verbatim>\<open>xs[:K]\<close> leaves at most \<open>length xs - |K|\<close>
  elements, none of a list of one element. Under that condition, which the count tool
  does not need, a tool given such a \<open>K\<close> prints the header row only and exits with
  status 0 instead of rejecting it.
\<close>

theorem nonpositive_K_gives_empty_result:
  assumes "K \<le> 0"
  shows "get_dir_counts fs start_dir K = []
    \<and> get_dir_sizes fs start_dir K = (if stat_ok fs (os_walk fs start_dir) then Inr [] else Inl OtherOSError)
    \<and> find_large_files fs start_dir K = (if stat_ok fs (os_walk fs start_dir) then Inr [] else Inl OtherOSError)
    \<and> get_top_n [] K = []
    \<and> length (py_slice_to xs K) \<le> length xs - nat (- K)
    \<and> (length argv = 3 \<and> to_int (argv ! 1) = Some K \<longrightarrow>
         main_topcounts to_int fs argv = \<lparr>stdout = [Header], stderr = [], exit_status = 0\<rparr>
         \<and> (stat_ok fs (os_walk fs (argv ! 2)) \<longrightarrow>
              main_topdirs to_int fs argv = \<lparr>stdout = [Header], stderr = [], exit_status = 0\<rparr>
              \<and> main_topfiles to_int fs argv = \<lparr>stdout = [Header], stderr = [], exit_status = 0\<rparr>))"
proof -
  have n: "nat K = 0" using assms by simp
  have c: "get_dir_counts fs d K = []" for d
    by (simp add: get_dir_counts_closed n)
  have s: "get_dir_sizes fs d K = (if stat_ok fs (os_walk fs d) then Inr [] else Inl OtherOSError)" for d
    by (simp add: get_dir_sizes_closed n)
  have f: "find_large_files fs d K = (if stat_ok fs (os_walk fs d) then Inr [] else Inl OtherOSError)" for d
    using assms by (rule find_large_files_nonpos)
  have l: "length (py_slice_to xs K) \<le> length xs - nat (- K)"
    using assms by (simp add: py_slice_to_def)
  have m: "length argv = 3 \<and> to_int (argv ! 1) = Some K \<longrightarrow>
         main_topcounts to_int fs argv = \<lparr>stdout = [Header], stderr = [], exit_status = 0\<rparr>
         \<and> (stat_ok fs (os_walk fs (argv ! 2)) \<longrightarrow>
              main_topdirs to_int fs argv = \<lparr>stdout = [Header], stderr = [], exit_status = 0\<rparr>
              \<and> main_topfiles to_int fs argv = \<lparr>stdout = [Header], stderr = [], exit_status = 0\<rparr>)"
    by (simp add: main_topcounts_def main_topdirs_def main_topfiles_def c s f get_top_n_Nil report_Nil)
  from c s f l m show ?thesis
    by (simp only: get_top_n_Nil simp_thms)
qed

theorem nonpositive_K_gives_empty_result_witness:
  "(- 3::int) \<le> 0
   \<and> length [''topfiles'', ''-3'', ''/d''] = 3 \<and> scenario_int ([''topfiles'', ''-3'', ''/d''] ! 1) = Some (- 3)
   \<and> stat_ok scenario_fs (os_walk scenario_fs ([''topfiles'', ''-3'', ''/d''] ! 2))
   \<and> get_dir_counts scenario_fs ''/d'' (- 3) = []
   \<and> get_dir_sizes scenario_fs ''/d'' (- 3) = Inr []
   \<and> find_large_files scenario_fs ''/d'' (- 3) = Inr []
   \<and> main_topcounts scenario_int scenario_fs [''topfiles'', ''-3'', ''/d'']
        = \<lparr>stdout = [Header], stderr = [], exit_status = 0\<rparr>
   \<and> main_topdirs scenario_int scenario_fs [''topfiles'', ''-3'', ''/d'']
        = \<lparr>stdout = [Header], stderr = [], exit_status = 0\<rparr>
   \<and> main_topfiles scenario_int scenario_fs [''topfiles'', ''-3'', ''/d'']
        = \<lparr>stdout = [Header], stderr = [], exit_status = 0\<rparr>"
proof -
  have k: "(- 3::int) \<le> 0" by simp
  note t = nonpositive_K_gives_empty_result [OF k, of scenario_fs "''/d''" "[]" "[''topfiles'', ''-3'', ''/d'']" scenario_int]
  have a: "length [''topfiles'', ''-3'', ''/d''] = 3 \<and> scenario_int ([''topfiles'', ''-3'', ''/d''] ! 1) = Some (- 3)"
    by (simp add: scenario_int_examples)
  have o: "stat_ok scenario_fs (os_walk scenario_fs ([''topfiles'', ''-3'', ''/d''] ! 2))"
    using scenario_stat_ok by simp
  from t a o have "main_topcounts scenario_int scenario_fs [''topfiles'', ''-3'', ''/d'']
        = \<lparr>stdout = [Header], stderr = [], exit_status = 0\<rparr>
   \<and> main_topdirs scenario_int scenario_fs [''topfiles'', ''-3'', ''/d'']
        = \<lparr>stdout = [Header], stderr = [], exit_status = 0\<rparr>
   \<and> main_topfiles scenario_int scenario_fs [''topfiles'', ''-3'', ''/d'']
        = \<lparr>stdout = [Header], stderr = [], exit_status = 0\<rparr>"
    by blast
  moreover from t have "get_dir_counts scenario_fs ''/d'' (- 3) = []"
    by blast
  moreover from t have "get_dir_sizes scenario_fs ''/d'' (- 3)
      = (if stat_ok scenario_fs (os_walk scenario_fs ''/d'') then Inr [] else Inl OtherOSError)"
    by blast
  then have "get_dir_sizes scenario_fs ''/d'' (- 3) = Inr []"
    by (simp only: scenario_stat_ok if_True)
  moreover from t have "find_large_files scenario_fs ''/d'' (- 3)
      = (if stat_ok scenario_fs (os_walk scenario_fs ''/d'') then Inr [] else Inl OtherOSError)"
    by blast
  then have "find_large_files scenario_fs ''/d'' (- 3) = Inr []"
    by (simp only: scenario_stat_ok if_True)
  ultimately show ?thesis using k a o by blast
qed

lemma scenario_missing: "dir_at scenario_fs ''/does/not/exist'' = None"
  by (simp add: scenario_fs_def)

lemma get_dir_sizes_missing: "dir_at fs start_dir = None \<Longrightarrow> get_dir_sizes fs start_dir K = Inr []"
  by (simp add: get_dir_sizes_def os_walk_missing)

lemma get_dir_counts_missing: "dir_at fs start_dir = None \<Longrightarrow> get_dir_counts fs start_dir K = []"
  by (simp add: get_dir_counts_def os_walk_missing)

lemma find_large_files_missing: "dir_at fs start_dir = None \<Longrightarrow> find_large_files fs start_dir K = Inr []"
  by (simp add: find_large_files_def os_walk_missing)

text \<open>
  C7, as stated, fails: with \<open>K = 5\<close> and a start directory that does not exist the
  tool does not fail; it prints the header row and exits with status 0. So it does
  with \<open>K = 0\<close>.
\<close>

theorem config_error_counterexample:
  "dir_at scenario_fs ''/does/not/exist'' = None
   \<and> scenario_int ''5'' = Some 5
   \<and> main_topcounts scenario_int scenario_fs [''topcounts'', ''5'', ''/does/not/exist'']
        = \<lparr>stdout = [Header], stderr = [], exit_status = 0\<rparr>
   \<and> scenario_int ''0'' = Some 0
   \<and> main_topcounts scenario_int scenario_fs [''topcounts'', ''0'', ''/d'']
        = \<lparr>stdout = [Header], stderr = [], exit_status = 0\<rparr>"
proof (intro conjI)
  show "dir_at scenario_fs ''/does/not/exist'' = None"
    by (rule scenario_missing)
  show "scenario_int ''5'' = Some 5" and "scenario_int ''0'' = Some 0"
    by (rule scenario_int_examples)+
  show "main_topcounts scenario_int scenario_fs [''topcounts'', ''5'', ''/does/not/exist'']
        = \<lparr>stdout = [Header], stderr = [], exit_status = 0\<rparr>"
    by (simp add: main_topcounts_def scenario_int_examples get_dir_counts_missing [OF scenario_missing] report_Nil)
  show "main_topcounts scenario_int scenario_fs [''topcounts'', ''0'', ''/d'']
        = \<lparr>stdout = [Header], stderr = [], exit_status = 0\<rparr>"
    by (simp add: main_topcounts_def scenario_int_examples get_dir_counts_closed report_Nil)
qed

text \<open>
  C7, amended. The tools check neither \<open>K\<close> nor the start directory. Given two
  arguments, a run fails early only when \<open>K\<close> is not numeric: \<^verbatim>\<open>int\<close> raises
  \<^verbatim>\<open>ValueError\<close> after the header row is printed and before any traversal (the
  outcome is the same on every file system), with a traceback on standard error and
  exit status 1. With a start directory that does not exist the walk is empty, and each
  tool prints the header row only and exits with status 0, whatever integer \<open>K\<close> is;
  with \<open>K \<le> 0\<close> the count tool does the same on every tree.
\<close>

theorem only_nonnumeric_K_fails:
  assumes "length argv = 3"
  shows "(to_int (argv ! 1) = None \<longrightarrow>
            main_topcounts to_int fs argv = \<lparr>stdout = [Header], stderr = [Traceback ValueError], exit_status = 1\<rparr>
          \<and> main_topdirs to_int fs argv = \<lparr>stdout = [Header], stderr = [Traceback ValueError], exit_status = 1\<rparr>
          \<and> main_topfiles to_int fs argv = \<lparr>stdout = [Header], stderr = [Traceback ValueError], exit_status = 1\<rparr>)
    \<and> (\<forall>K. to_int (argv ! 1) = Some K \<and> dir_at fs (argv ! 2) = None \<longrightarrow>
            main_topcounts to_int fs argv = \<lparr>stdout = [Header], stderr = [], exit_status = 0\<rparr>
          \<and> main_topdirs to_int fs argv = \<lparr>stdout = [Header], stderr = [], exit_status = 0\<rparr>
          \<and> main_topfiles to_int fs argv = \<lparr>stdout = [Header], stderr = [], exit_status = 0\<rparr>)
    \<and> (\<forall>K. to_int (argv ! 1) = Some K \<and> K \<le> 0 \<longrightarrow>
            main_topcounts to_int fs argv = \<lparr>stdout = [Header], stderr = [], exit_status = 0\<rparr>)"
proof (intro conjI allI)
  show "to_int (argv ! 1) = None \<longrightarrow>
            main_topcounts to_int fs argv = \<lparr>stdout = [Header], stderr = [Traceback ValueError], exit_status = 1\<rparr>
          \<and> main_topdirs to_int fs argv = \<lparr>stdout = [Header], stderr = [Traceback ValueError], exit_status = 1\<rparr>
          \<and> main_topfiles to_int fs argv = \<lparr>stdout = [Header], stderr = [Traceback ValueError], exit_status = 1\<rparr>"
    using assms by (simp add: main_topcounts_def main_topdirs_def main_topfiles_def crashed_def)
next
  fix K
  show "to_int (argv ! 1) = Some K \<and> dir_at fs (argv ! 2) = None \<longrightarrow>
            main_topcounts to_int fs argv = \<lparr>stdout = [Header], stderr = [], exit_status = 0\<rparr>
          \<and> main_topdirs to_int fs argv = \<lparr>stdout = [Header], stderr = [], exit_status = 0\<rparr>
          \<and> main_topfiles to_int fs argv = \<lparr>stdout = [Header], stderr = [], exit_status = 0\<rparr>"
    using assms
    by (simp add: main_topcounts_def main_topdirs_def main_topfiles_def get_dir_counts_missing
        get_dir_sizes_missing find_large_files_missing get_top_n_Nil report_Nil)
next
  fix K
  show "to_int (argv ! 1) = Some K \<and> K \<le> 0 \<longrightarrow>
            main_topcounts to_int fs argv = \<lparr>stdout = [Header], stderr = [], exit_status = 0\<rparr>"
    using assms by (simp add: main_topcounts_def get_dir_counts_closed report_Nil)
qed

theorem only_nonnumeric_K_fails_witness:
  "length [''topdirs'', ''many'', ''/d''] = 3 \<and> scenario_int ([''topdirs'', ''many'', ''/d''] ! 1) = None
   \<and> main_topdirs scenario_int scenario_fs [''topdirs'', ''many'', ''/d'']
        = \<lparr>stdout = [Header], stderr = [Traceback ValueError], exit_status = 1\<rparr>
   \<and> length [''topdirs'', ''5'', ''/does/not/exist''] = 3
   \<and> scenario_int ([''topdirs'', ''5'', ''/does/not/exist''] ! 1) = Some 5
   \<and> dir_at scenario_fs ([''topdirs'', ''5'', ''/does/not/exist''] ! 2) = None
   \<and> main_topdirs scenario_int scenario_fs [''topdirs'', ''5'', ''/does/not/exist'']
        = \<lparr>stdout = [Header], stderr = [], exit_status = 0\<rparr>
   \<and> length [''topcounts'', ''-3'', ''/d''] = 3
   \<and> scenario_int ([''topcounts'', ''-3'', ''/d''] ! 1) = Some (- 3) \<and> (- 3::int) \<le> 0
   \<and> main_topcounts scenario_int scenario_fs [''topcounts'', ''-3'', ''/d'']
        = \<lparr>stdout = [Header], stderr = [], exit_status = 0\<rparr>"
proof -
  have l1: "length [''topdirs'', ''many'', ''/d''] = 3" by simp
  have l2: "length [''topdirs'', ''5'', ''/does/not/exist''] = 3" by simp
  have l3: "length [''topcounts'', ''-3'', ''/d''] = 3" by simp
  have p1: "scenario_int ([''topdirs'', ''many'', ''/d''] ! 1) = None"
    by (simp add: scenario_int_examples)
  have p2: "scenario_int ([''topdirs'', ''5'', ''/does/not/exist''] ! 1) = Some 5"
    by (simp add: scenario_int_examples)
  have p3: "scenario_int ([''topcounts'', ''-3'', ''/d''] ! 1) = Some (- 3) \<and> (- 3::int) \<le> 0"
    by (simp add: scenario_int_examples)
  have d2: "dir_at scenario_fs ([''topdirs'', ''5'', ''/does/not/exist''] ! 2) = None"
    by (simp add: scenario_missing)
  from only_nonnumeric_K_fails [OF l1, of scenario_int scenario_fs] p1
  have a: "main_topdirs scenario_int scenario_fs [''topdirs'', ''many'', ''/d'']
        = \<lparr>stdout = [Header], stderr = [Traceback ValueError], exit_status = 1\<rparr>"
    by blast
  from only_nonnumeric_K_fails [OF l2, of scenario_int scenario_fs] p2 d2
  have b: "main_topdirs scenario_int scenario_fs [''topdirs'', ''5'', ''/does/not/exist'']
        = \<lparr>stdout = [Header], stderr = [], exit_status = 0\<rparr>"
    by blast
  from only_nonnumeric_K_fails [OF l3, of scenario_int scenario_fs] p3
  have c: "main_topcounts scenario_int scenario_fs [''topcounts'', ''-3'', ''/d'']
        = \<lparr>stdout = [Header], stderr = [], exit_status = 0\<rparr>"
    by blast
  from l1 l2 l3 p1 p2 p3 d2 a b c show ?thesis by blast
qed

text \<open>
  C9, as stated, fails: invoked with two arguments, \<open>K = 2\<close> and a directory that
  exists, the size tool prints the header row and then ends with a traceback and exit
  status 1 when a size lookup raises an error other than \<^verbatim>\<open>FileNotFoundError\<close>, which
  nothing catches.
\<close>

theorem two_arguments_counterexample:
  "length [''topdirs'', ''2'', ''/l''] = 3
   \<and> scenario_int ''2'' = Some 2
   \<and> dir_at locked_fs ''/l'' = Some (Dir [] [''secret''])
   \<and> getsize locked_fs (os_path_join ''/l'' ''secret'') = Inl OtherOSError
   \<and> main_topdirs scenario_int locked_fs [''topdirs'', ''2'', ''/l'']
        = \<lparr>stdout = [Header], stderr = [Traceback (OSError OtherOSError)], exit_status = 1\<rparr>
   \<and> main_topfiles scenario_int locked_fs [''topfiles'', ''2'', ''/l'']
        = \<lparr>stdout = [Header], stderr = [Traceback (OSError OtherOSError)], exit_status = 1\<rparr>"
proof (intro conjI)
  show "length [''topdirs'', ''2'', ''/l''] = 3" by simp
  show "scenario_int ''2'' = Some 2" by (rule scenario_int_examples)
  show "dir_at locked_fs ''/l'' = Some (Dir [] [''secret''])" by (simp add: locked_fs_def)
  show "getsize locked_fs (os_path_join ''/l'' ''secret'') = Inl OtherOSError" by (simp add: locked_fs_def)
  show "main_topdirs scenario_int locked_fs [''topdirs'', ''2'', ''/l'']
        = \<lparr>stdout = [Header], stderr = [Traceback (OSError OtherOSError)], exit_status = 1\<rparr>"
    by (simp add: main_topdirs_def scenario_int_examples locked_sizes crashed_def)
  show "main_topfiles scenario_int locked_fs [''topfiles'', ''2'', ''/l'']
        = \<lparr>stdout = [Header], stderr = [Traceback (OSError OtherOSError)], exit_status = 1\<rparr>"
    by (simp add: main_topfiles_def scenario_int_examples locked_files crashed_def)
qed

text \<open>
  C9, amended. Invoked with an argument count other than two, a tool prints the usage
  message to standard error, nothing to standard output, and exits with status 1.
  Invoked with two arguments, \<open>K\<close> the positive integer of a configuration, and when no
  size lookup raises an error other than \<^verbatim>\<open>FileNotFoundError\<close> (the count tool looks
  no size up and needs no such condition), it prints the header row, then one row per
  entry of the list its scan returns, \<open>min (K, number of qualifying entries)\<close> rows,
  indexed from 1 in list order, and exits with status 0.
\<close>

theorem cli_exit_behaviour:
  "(length argv \<noteq> 3 \<longrightarrow>
       main_topcounts to_int fs argv = \<lparr>stdout = [], stderr = [Usage], exit_status = 1\<rparr>
     \<and> main_topdirs to_int fs argv = \<lparr>stdout = [], stderr = [Usage], exit_status = 1\<rparr>
     \<and> main_topfiles to_int fs argv = \<lparr>stdout = [], stderr = [Usage], exit_status = 1\<rparr>)
   \<and> (length argv = 3 \<and> to_int (argv ! 1) = Some K \<and> 1 \<le> K \<longrightarrow>
       (\<exists>result. main_topcounts to_int fs argv =
            \<lparr>stdout = Header # map (\<lambda>i. Row (Suc i) (fst (result ! i)) (snd (result ! i))) [0..<length result],
             stderr = [], exit_status = 0\<rparr>
          \<and> result = get_dir_counts fs (argv ! 2) K
          \<and> int (length result) = min K (int (length (os_walk fs (argv ! 2))))))
   \<and> (length argv = 3 \<and> to_int (argv ! 1) = Some K \<and> 1 \<le> K \<and> stat_ok fs (os_walk fs (argv ! 2)) \<longrightarrow>
       (\<exists>result. main_topdirs to_int fs argv =
            \<lparr>stdout = Header # map (\<lambda>i. Row (Suc i) (fst (result ! i)) (snd (result ! i))) [0..<length result],
             stderr = [], exit_status = 0\<rparr>
          \<and> get_dir_sizes fs (argv ! 2) K = Inr result
          \<and> int (length result) = min K (int (length (os_walk fs (argv ! 2)))))
     \<and> (\<exists>result. main_topfiles to_int fs argv =
            \<lparr>stdout = Header # map (\<lambda>i. Row (Suc i) (fst (result ! i)) (snd (result ! i))) [0..<length result],
             stderr = [], exit_status = 0\<rparr>
          \<and> top_files fs (argv ! 2) K = Inr result
          \<and> int (length result) = min K (int (length (filter (qualifies fs) (walk_paths (os_walk fs (argv ! 2))))))))"
proof (intro conjI)
  show "length argv \<noteq> 3 \<longrightarrow>
       main_topcounts to_int fs argv = \<lparr>stdout = [], stderr = [Usage], exit_status = 1\<rparr>
     \<and> main_topdirs to_int fs argv = \<lparr>stdout = [], stderr = [Usage], exit_status = 1\<rparr>
     \<and> main_topfiles to_int fs argv = \<lparr>stdout = [], stderr = [Usage], exit_status = 1\<rparr>"
    by (simp add: main_topcounts_def main_topdirs_def main_topfiles_def usage_exit_def)
next
  show "length argv = 3 \<and> to_int (argv ! 1) = Some K \<and> 1 \<le> K \<longrightarrow>
       (\<exists>result. main_topcounts to_int fs argv =
            \<lparr>stdout = Header # map (\<lambda>i. Row (Suc i) (fst (result ! i)) (snd (result ! i))) [0..<length result],
             stderr = [], exit_status = 0\<rparr>
          \<and> result = get_dir_counts fs (argv ! 2) K
          \<and> int (length result) = min K (int (length (os_walk fs (argv ! 2)))))"
  proof
    assume a: "length argv = 3 \<and> to_int (argv ! 1) = Some K \<and> 1 \<le> K"
    then have k: "1 \<le> K" by simp
    have "int (length (get_dir_counts fs (argv ! 2) K)) = min K (int (length (os_walk fs (argv ! 2))))"
      using length_top [OF k, of "map count_offer (os_walk fs (argv ! 2))"]
      by (simp add: get_dir_counts_closed)
    moreover have "main_topcounts to_int fs argv = report (get_dir_counts fs (argv ! 2) K)"
      using a by (simp add: main_topcounts_def)
    ultimately show "\<exists>result. main_topcounts to_int fs argv =
            \<lparr>stdout = Header # map (\<lambda>i. Row (Suc i) (fst (result ! i)) (snd (result ! i))) [0..<length result],
             stderr = [], exit_status = 0\<rparr>
          \<and> result = get_dir_counts fs (argv ! 2) K
          \<and> int (length result) = min K (int (length (os_walk fs (argv ! 2))))"
      by (intro exI [of _ "get_dir_counts fs (argv ! 2) K"] conjI) (simp_all only: report_rows_eq)
  qed
next
  show "length argv = 3 \<and> to_int (argv ! 1) = Some K \<and> 1 \<le> K \<and> stat_ok fs (os_walk fs (argv ! 2)) \<longrightarrow>
       (\<exists>result. main_topdirs to_int fs argv =
            \<lparr>stdout = Header # map (\<lambda>i. Row (Suc i) (fst (result ! i)) (snd (result ! i))) [0..<length result],
             stderr = [], exit_status = 0\<rparr>
          \<and> get_dir_sizes fs (argv ! 2) K = Inr result
          \<and> int (length result) = min K (int (length (os_walk fs (argv ! 2)))))
     \<and> (\<exists>result. main_topfiles to_int fs argv =
            \<lparr>stdout = Header # map (\<lambda>i. Row (Suc i) (fst (result ! i)) (snd (result ! i))) [0..<length result],
             stderr = [], exit_status = 0\<rparr>
          \<and> top_files fs (argv ! 2) K = Inr result
          \<and> int (length result) = min K (int (length (filter (qualifies fs) (walk_paths (os_walk fs (argv ! 2)))))))"
  proof (intro impI conjI)
    assume a: "length argv = 3 \<and> to_int (argv ! 1) = Some K \<and> 1 \<le> K \<and> stat_ok fs (os_walk fs (argv ! 2))"
    then have k: "1 \<le> K" by simp
    define sizes where "sizes = take (nat K) (py_sort_reverse fst (map (size_offer fs) (os_walk fs (argv ! 2))))"
    have s: "get_dir_sizes fs (argv ! 2) K = Inr sizes"
      using a by (simp add: get_dir_sizes_closed sizes_def)
    have "int (length sizes) = min K (int (length (os_walk fs (argv ! 2))))"
      unfolding sizes_def using length_top [OF k, of "map (size_offer fs) (os_walk fs (argv ! 2))"] by simp
    moreover have "main_topdirs to_int fs argv = report sizes"
      using a s by (simp add: main_topdirs_def)
    ultimately show "\<exists>result. main_topdirs to_int fs argv =
            \<lparr>stdout = Header # map (\<lambda>i. Row (Suc i) (fst (result ! i)) (snd (result ! i))) [0..<length result],
             stderr = [], exit_status = 0\<rparr>
          \<and> get_dir_sizes fs (argv ! 2) K = Inr result
          \<and> int (length result) = min K (int (length (os_walk fs (argv ! 2))))"
      using s by (intro exI [of _ sizes] conjI) (simp_all only: report_rows_eq)
  next
    assume a: "length argv = 3 \<and> to_int (argv ! 1) = Some K \<and> 1 \<le> K \<and> stat_ok fs (os_walk fs (argv ! 2))"
    then have k: "1 \<le> K" by simp
    define top where "top = take (nat K) (py_sort_reverse fst (file_offers fs (os_walk fs (argv ! 2))))"
    have t: "top_files fs (argv ! 2) K = Inr top"
      using a by (simp add: top_files_closed top_def)
    then obtain files where f: "find_large_files fs (argv ! 2) K = Inr files" and g: "get_top_n files K = top"
      by (auto simp: top_files_def split: sum.splits)
    have "int (length top) = min K (int (length (filter (qualifies fs) (walk_paths (os_walk fs (argv ! 2))))))"
      unfolding top_def using length_top [OF k, of "file_offers fs (os_walk fs (argv ! 2))"]
      by (simp add: length_file_offers)
    moreover have "main_topfiles to_int fs argv = report top"
      using a f g by (simp add: main_topfiles_def)
    ultimately show "\<exists>result. main_topfiles to_int fs argv =
            \<lparr>stdout = Header # map (\<lambda>i. Row (Suc i) (fst (result ! i)) (snd (result ! i))) [0..<length result],
             stderr = [], exit_status = 0\<rparr>
          \<and> top_files fs (argv ! 2) K = Inr result
          \<and> int (length result) = min K (int (length (filter (qualifies fs) (walk_paths (os_walk fs (argv ! 2))))))"
      using t by (intro exI [of _ top] conjI) (simp_all only: report_rows_eq)
  qed
qed

theorem cli_exit_behaviour_witness:
  "length [''topfiles''] \<noteq> 3
   \<and> main_topfiles scenario_int scenario_fs [''topfiles''] = \<lparr>stdout = [], stderr = [Usage], exit_status = 1\<rparr>
   \<and> length [''topfiles'', ''2'', ''/d''] = 3
   \<and> scenario_int ([''topfiles'', ''2'', ''/d''] ! 1) = Some 2 \<and> (1::int) \<le> 2
   \<and> stat_ok scenario_fs (os_walk scenario_fs ([''topfiles'', ''2'', ''/d''] ! 2))
   \<and> main_topfiles scenario_int scenario_fs [''topfiles'', ''2'', ''/d'']
        = \<lparr>stdout = [Header, Row 1 100 ''/d/sub/big'', Row 2 3 ''/d/b''], stderr = [], exit_status = 0\<rparr>
   \<and> main_topdirs scenario_int scenario_fs [''topfiles'', ''2'', ''/d'']
        = \<lparr>stdout = [Header, Row 1 100 ''/d/sub'', Row 2 5 ''/d''], stderr = [], exit_status = 0\<rparr>
   \<and> main_topcounts scenario_int scenario_fs [''topfiles'', ''2'', ''/d'']
        = \<lparr>stdout = [Header, Row 1 2 ''/d'', Row 2 1 ''/d/sub''], stderr = [], exit_status = 0\<rparr>"
proof -
  note u = cli_exit_behaviour [of "[''topfiles'']" scenario_int scenario_fs 2]
  note t = cli_exit_behaviour [of "[''topfiles'', ''2'', ''/d'']" scenario_int scenario_fs 2]
  have l1: "length [''topfiles''] \<noteq> 3" by simp
  have l2: "length [''topfiles'', ''2'', ''/d''] = 3" by simp
  have p: "scenario_int ([''topfiles'', ''2'', ''/d''] ! 1) = Some 2"
    by (simp add: scenario_int_examples)
  have k: "(1::int) \<le> 2" by simp
  have o: "stat_ok scenario_fs (os_walk scenario_fs ([''topfiles'', ''2'', ''/d''] ! 2))"
    using scenario_stat_ok by simp
  have f: "top_files scenario_fs ([''topfiles'', ''2'', ''/d''] ! 2) 2 = Inr [(100, ''/d/sub/big''), (3, ''/d/b'')]"
    by (simp add: top_files_def find_large_files_def scenario_walk)
       (simp add: scenario_fs_def os_path_join_def get_top_n_def py_sort_reverse_def py_slice_to_def MIN_FILE_SIZE_def)
  have s: "get_dir_sizes scenario_fs ([''topfiles'', ''2'', ''/d''] ! 2) 2 = Inr [(100, ''/d/sub''), (5, ''/d'')]"
    using scenario_sizes by simp
  have c: "get_dir_counts scenario_fs ([''topfiles'', ''2'', ''/d''] ! 2) 2 = [(2, ''/d''), (1, ''/d/sub'')]"
    by (simp add: get_dir_counts_def scenario_walk py_sort_reverse_def py_slice_to_def)
  have e: "[0..<length [x, y]] = [0, Suc 0]" for x y :: 'a
    by (simp add: upt_rec)
  from u l1 have a: "main_topfiles scenario_int scenario_fs [''topfiles''] = \<lparr>stdout = [], stderr = [Usage], exit_status = 1\<rparr>"
    by blast
  from t l2 p k o obtain result where
    m: "main_topfiles scenario_int scenario_fs [''topfiles'', ''2'', ''/d''] =
            \<lparr>stdout = Header # map (\<lambda>i. Row (Suc i) (fst (result ! i)) (snd (result ! i))) [0..<length result],
             stderr = [], exit_status = 0\<rparr>"
    and r: "top_files scenario_fs ([''topfiles'', ''2'', ''/d''] ! 2) 2 = Inr result"
    by blast
  from r f have "result = [(100, ''/d/sub/big''), (3, ''/d/b'')]"
    by simp
  with m have b: "main_topfiles scenario_int scenario_fs [''topfiles'', ''2'', ''/d'']
        = \<lparr>stdout = [Header, Row 1 100 ''/d/sub/big'', Row 2 3 ''/d/b''], stderr = [], exit_status = 0\<rparr>"
    by (simp add: e)
  from t l2 p k o obtain sizes where
    ms: "main_topdirs scenario_int scenario_fs [''topfiles'', ''2'', ''/d''] =
            \<lparr>stdout = Header # map (\<lambda>i. Row (Suc i) (fst (sizes ! i)) (snd (sizes ! i))) [0..<length sizes],
             stderr = [], exit_status = 0\<rparr>"
    and rs: "get_dir_sizes scenario_fs ([''topfiles'', ''2'', ''/d''] ! 2) 2 = Inr sizes"
    by blast
  from rs s have "sizes = [(100, ''/d/sub''), (5, ''/d'')]"
    by simp
  with ms have b': "main_topdirs scenario_int scenario_fs [''topfiles'', ''2'', ''/d'']
        = \<lparr>stdout = [Header, Row 1 100 ''/d/sub'', Row 2 5 ''/d''], stderr = [], exit_status = 0\<rparr>"
    by (simp add: e)
  from t l2 p k obtain counts where
    m': "main_topcounts scenario_int scenario_fs [''topfiles'', ''2'', ''/d''] =
            \<lparr>stdout = Header # map (\<lambda>i. Row (Suc i) (fst (counts ! i)) (snd (counts ! i))) [0..<length counts],
             stderr = [], exit_status = 0\<rparr>"
    and r': "counts = get_dir_counts scenario_fs ([''topfiles'', ''2'', ''/d''] ! 2) 2"
    by blast
  from r' c have "counts = [(2, ''/d''), (1, ''/d/sub'')]"
    by simp
  with m' have d: "main_topcounts scenario_int scenario_fs [''topfiles'', ''2'', ''/d'']
        = \<lparr>stdout = [Header, Row 1 2 ''/d'', Row 2 1 ''/d/sub''], stderr = [], exit_status = 0\<rparr>"
    by (simp add: e)
  from l1 l2 p k o a b b' d show ?thesis by blast
qed

end
